theory Spec2Isabelle
  imports Main "HOL-Library.Word"
begin

section \<open>The property rewriter of \<^verbatim>\<open>rewriter/Prop.cc\<close>\<close>

text \<open>
  The pass recognises property declarations (\<^verbatim>\<open>prop\<close>, \<^verbatim>\<open>const\<close>, \<^verbatim>\<open>token_prop\<close>, ...)
  among the statements of a class body and replaces each with synthesized method
  definitions. This theory embeds \<^verbatim>\<open>isT\<close>, \<^verbatim>\<open>isTNilable\<close>, \<^verbatim>\<open>isTStruct\<close>,
  \<^verbatim>\<open>parseProp\<close>, \<^verbatim>\<open>processProp\<close>, \<^verbatim>\<open>mkTStructInitialize\<close> and \<^verbatim>\<open>Prop::run\<close>.

  Conventions of the embedding.
  \<^item> A \<^verbatim>\<open>unique_ptr<ast::Expression>\<close> is a value of type \<open>Expression\<close>; the null pointer is
    the value \<open>Nullptr\<close>, so \<^verbatim>\<open>p == nullptr\<close> is \<open>p = Nullptr\<close> and a \<^verbatim>\<open>cast_tree\<close> of a null
    pointer fails. Trees are values, hence \<^verbatim>\<open>deepCopy\<close> returns its (non-null) argument.
  \<^item> The node classes the code inspects (\<^verbatim>\<open>Send\<close>, \<^verbatim>\<open>UnresolvedConstantLit\<close>, \<^verbatim>\<open>ConstantLit\<close>,
    \<^verbatim>\<open>Literal\<close>, \<^verbatim>\<open>Hash\<close>, \<^verbatim>\<open>EmptyTree\<close>) are constructors with the fields the code reads.
    The builders \<^verbatim>\<open>ast::MK::X\<close> and \<^verbatim>\<open>ASTUtil::mkGet/mkSet/mkMutator\<close> are declared in
    \<^verbatim>\<open>ast/Helpers.h\<close> and \<^verbatim>\<open>rewriter/Util.h\<close>, which are not part of the sources at hand: each
    is a constructor \<open>MK_X\<close> holding the builder's arguments in the order of the call.
  \<^item> The other collaborators (\<^verbatim>\<open>ASTUtil::dupType\<close>, the hash helpers, \<^verbatim>\<open>thunkBody\<close>,
    \<^verbatim>\<open>isProbablySymbol\<close>, the source text, the error sink, the autogen flag) are fields of
    the context record: every theorem holds for all of them.
  \<^item> \<^verbatim>\<open>ENFORCE\<close> failures and dereferences of a null pointer are error results.
\<close>

subsection \<open>Locations, names, symbols\<close>

datatype LocOffsets = LocOffsets (beginPos: "32 word") (endPos: "32 word")

datatype NameRef = noName | UTF8 string | CONSTANT string

text \<open>\<^verbatim>\<open>NameRef::exists\<close>: every name but \<^verbatim>\<open>noName\<close>.\<close>

definition NameRef_exists :: "NameRef \<Rightarrow> bool" where
  "NameRef_exists n = (n \<noteq> noName)"

text \<open>The text of a name, the interning of a text, and the names \<^verbatim>\<open>@x\<close> and \<^verbatim>\<open>x=\<close> made
  of a name \<^verbatim>\<open>x\<close> (\<^verbatim>\<open>addAt\<close>, \<^verbatim>\<open>addEq\<close>).\<close>

fun NameRef_show :: "NameRef \<Rightarrow> string" where
  "NameRef_show noName = ''<none>''"
| "NameRef_show (UTF8 s) = s"
| "NameRef_show (CONSTANT s) = s"

definition enterNameUTF8 :: "string \<Rightarrow> NameRef" where
  "enterNameUTF8 s = UTF8 s"

definition addAt :: "NameRef \<Rightarrow> NameRef" where
  "addAt n = enterNameUTF8 (''@'' @ NameRef_show n)"

definition addEq :: "NameRef \<Rightarrow> NameRef" where
  "addEq n = enterNameUTF8 (NameRef_show n @ ''='')"

text \<open>The well-known names of \<^verbatim>\<open>core::Names\<close> that the pass uses. Their table
  (\<^verbatim>\<open>core/Names.h\<close>) is not among the sources; the spellings are those of the macros and
  options as the comments and messages of \<^verbatim>\<open>Prop.cc\<close> give them (\<^verbatim>\<open>created_prop\<close>,
  \<^verbatim>\<open>merchant_prop\<close>, \<^verbatim>\<open>computed_by\<close>, \<^verbatim>\<open>foreign:\<close>, ...). The cases of the \<^verbatim>\<open>switch\<close> in
  \<^verbatim>\<open>parseProp\<close> are distinct names.\<close>

named_theorems Names \<open>the well-known names of core::Names\<close>

definition Names_prop :: NameRef where [Names]: "Names_prop = UTF8 ''prop''"
definition Names_const :: NameRef where [Names]: "Names_const = UTF8 ''const''"
definition Names_tokenProp :: NameRef where [Names]: "Names_tokenProp = UTF8 ''token_prop''"
definition Names_timestampedTokenProp :: NameRef where
  [Names]: "Names_timestampedTokenProp = UTF8 ''timestamped_token_prop''"
definition Names_createdProp :: NameRef where [Names]: "Names_createdProp = UTF8 ''created_prop''"
definition Names_merchantProp :: NameRef where [Names]: "Names_merchantProp = UTF8 ''merchant_prop''"
definition Names_token :: NameRef where [Names]: "Names_token = UTF8 ''token''"
definition Names_created :: NameRef where [Names]: "Names_created = UTF8 ''created''"
definition Names_merchant :: NameRef where [Names]: "Names_merchant = UTF8 ''merchant''"
definition Names_immutable :: NameRef where [Names]: "Names_immutable = UTF8 ''immutable''"
definition Names_factory :: NameRef where [Names]: "Names_factory = UTF8 ''factory''"
definition Names_default :: NameRef where [Names]: "Names_default = UTF8 ''default''"
definition Names_computedBy :: NameRef where [Names]: "Names_computedBy = UTF8 ''computed_by''"
definition Names_foreign :: NameRef where [Names]: "Names_foreign = UTF8 ''foreign''"
definition Names_ifunset :: NameRef where [Names]: "Names_ifunset = UTF8 ''ifunset''"
definition Names_nilable :: NameRef where [Names]: "Names_nilable = UTF8 ''nilable''"
definition Names_class :: NameRef where [Names]: "Names_class = UTF8 ''class''"
definition Names_arg0 :: NameRef where [Names]: "Names_arg0 = UTF8 ''arg0''"
definition Names_opts :: NameRef where [Names]: "Names_opts = UTF8 ''opts''"
definition Names_squareBrackets :: NameRef where [Names]: "Names_squareBrackets = UTF8 ''[]''"
definition Names_initialize :: NameRef where [Names]: "Names_initialize = UTF8 ''initialize''"
definition Constants_T :: NameRef where [Names]: "Constants_T = CONSTANT ''T''"
definition Constants_Struct :: NameRef where [Names]: "Constants_Struct = CONSTANT ''Struct''"
definition Constants_Mutator :: NameRef where [Names]: "Constants_Mutator = CONSTANT ''Mutator''"
definition Constants_HashMutator :: NameRef where
  [Names]: "Constants_HashMutator = CONSTANT ''HashMutator''"
definition Constants_ArrayMutator :: NameRef where
  [Names]: "Constants_ArrayMutator = CONSTANT ''ArrayMutator''"

datatype SymbolRef =
  Symbols_root | Symbols_String | Symbols_Float | Symbols_Hash | Symbols_Array
  | Symbols_other nat

subsection \<open>Expressions\<close>

datatype LiteralValue =
  SymbolValue NameRef | NilValue | TrueValue | FalseValue | IntegerValue int
  | StringValue string

datatype Expression =
    Nullptr
  | EmptyTree
  | Send LocOffsets Expression NameRef "Expression list"
  | UnresolvedConstantLit LocOffsets Expression NameRef
  | ConstantLit LocOffsets SymbolRef
  | Literal LocOffsets LiteralValue
  | Hash LocOffsets "Expression list" "Expression list"
  | OtherNode LocOffsets nat "Expression list"
  | MK_Sig LocOffsets Expression Expression
  | MK_Sig0 LocOffsets Expression
  | MK_Sig1 LocOffsets Expression Expression Expression
  | MK_SigVoid LocOffsets Expression
  | MK_Hash0 LocOffsets
  | MK_Hash1 LocOffsets Expression Expression
  | MK_Hash LocOffsets "Expression list" "Expression list"
  | MK_Symbol LocOffsets NameRef
  | MK_Constant LocOffsets SymbolRef
  | MK_UnresolvedConstant LocOffsets Expression NameRef
  | MK_EmptyTree
  | MK_RaiseUnimplemented LocOffsets
  | MK_Nil LocOffsets
  | MK_Self LocOffsets
  | MK_Unsafe LocOffsets Expression
  | MK_Untyped LocOffsets
  | MK_Nilable LocOffsets Expression
  | MK_AssertType LocOffsets Expression Expression
  | MK_Send0 LocOffsets Expression NameRef
  | MK_Send1 LocOffsets Expression NameRef Expression
  | MK_Send2 LocOffsets Expression NameRef Expression Expression
  | MK_InsSeq1 LocOffsets Expression Expression
  | MK_InsSeq LocOffsets "Expression list" Expression
  | MK_Instance LocOffsets NameRef
  | MK_Local LocOffsets NameRef
  | MK_KeywordArg LocOffsets Expression
  | MK_OptionalArg LocOffsets Expression Expression
  | MK_RestArg LocOffsets Expression
  | MK_Assign LocOffsets Expression Expression
  | MK_ZSuper LocOffsets
  | MK_SyntheticMethod LocOffsets LocOffsets NameRef "Expression list" Expression
  | MK_SyntheticMethod1 LocOffsets LocOffsets NameRef Expression Expression
  | MK_Class LocOffsets LocOffsets Expression "Expression list" "Expression list"
  | ASTUtil_mkGet LocOffsets NameRef Expression
  | ASTUtil_mkSet LocOffsets NameRef LocOffsets Expression
  | ASTUtil_mkMutator LocOffsets NameRef

text \<open>\<^verbatim>\<open>ast::cast_tree<T>\<close> and \<^verbatim>\<open>ast::isa_tree<T>\<close>: the fields of the node when the
  expression is a \<^verbatim>\<open>T\<close>, nothing otherwise (also for the null pointer).\<close>

definition cast_Send ::
  "Expression \<Rightarrow> (LocOffsets \<times> Expression \<times> NameRef \<times> Expression list) option" where
  "cast_Send e = (case e of Send l r f as \<Rightarrow> Some (l, r, f, as) | _ \<Rightarrow> None)"

definition cast_UnresolvedConstantLit ::
  "Expression \<Rightarrow> (LocOffsets \<times> Expression \<times> NameRef) option" where
  "cast_UnresolvedConstantLit e =
     (case e of UnresolvedConstantLit l s c \<Rightarrow> Some (l, s, c) | _ \<Rightarrow> None)"

definition cast_ConstantLit :: "Expression \<Rightarrow> (LocOffsets \<times> SymbolRef) option" where
  "cast_ConstantLit e = (case e of ConstantLit l s \<Rightarrow> Some (l, s) | _ \<Rightarrow> None)"

definition cast_Literal :: "Expression \<Rightarrow> (LocOffsets \<times> LiteralValue) option" where
  "cast_Literal e = (case e of Literal l v \<Rightarrow> Some (l, v) | _ \<Rightarrow> None)"

definition cast_Hash ::
  "Expression \<Rightarrow> (LocOffsets \<times> Expression list \<times> Expression list) option" where
  "cast_Hash e = (case e of Hash l ks vs \<Rightarrow> Some (l, ks, vs) | _ \<Rightarrow> None)"

definition isa_EmptyTree :: "Expression \<Rightarrow> bool" where
  "isa_EmptyTree e = (case e of EmptyTree \<Rightarrow> True | _ \<Rightarrow> False)"

text \<open>\<^verbatim>\<open>Literal::isSymbol\<close> and \<^verbatim>\<open>Literal::asSymbol\<close>.\<close>

definition isSymbol :: "LiteralValue \<Rightarrow> bool" where
  "isSymbol v = (case v of SymbolValue n \<Rightarrow> True | _ \<Rightarrow> False)"

definition asSymbol :: "LiteralValue \<Rightarrow> NameRef" where
  "asSymbol v = (case v of SymbolValue n \<Rightarrow> n | _ \<Rightarrow> noName)"

subsection \<open>The context and the collaborators outside the sources\<close>

datatype ErrorClass = ComputedBySymbol | PropForeignStrict

datatype error = EnforceFailed | NullDereference | OutOfBounds

text \<open>One call of \<^verbatim>\<open>ctx.beginError(loc, what)\<close>. The pass sets the header (and the
  suggested replacement: title, location, text) only when the sink hands back a
  live builder; a builder the sink suppresses leaves \<open>None\<close>.\<close>

datatype Diagnostic =
  Diagnostic LocOffsets ErrorClass "(string \<times> (string \<times> LocOffsets \<times> string) option) option"

text \<open>The context \<^verbatim>\<open>ctx\<close> and the collaborators that \<^verbatim>\<open>Prop.cc\<close> calls with it but that are
  not among the sources: the autogen flag of the global state, the default location, the
  source text at a location of the file, whether the sink hands back a live builder for
  an error class at a location, and the helpers of \<^verbatim>\<open>ASTUtil\<close>. \<^verbatim>\<open>extractHashValue\<close> changes
  the hash it is given: it returns the key and the value (two null pointers when the key
  is absent) and the hash that is left.\<close>

record MutableContext =
  runningUnderAutogen :: bool
  LocOffsets_none :: LocOffsets
  source :: "LocOffsets \<Rightarrow> string"
  willBuild :: "LocOffsets \<Rightarrow> ErrorClass \<Rightarrow> bool"
  dupType :: "Expression \<Rightarrow> Expression"
  hasHashValue :: "Expression \<Rightarrow> NameRef \<Rightarrow> bool"
  hasTruthyHashValue :: "Expression \<Rightarrow> NameRef \<Rightarrow> bool"
  extractHashValue :: "Expression \<Rightarrow> NameRef \<Rightarrow> (Expression \<times> Expression) \<times> Expression"
  thunkBody :: "Expression \<Rightarrow> Expression"
  isProbablySymbol :: "Expression \<Rightarrow> SymbolRef \<Rightarrow> bool"

definition beginError ::
  "MutableContext \<Rightarrow> LocOffsets \<Rightarrow> ErrorClass \<Rightarrow> string \<Rightarrow>
   (string \<times> LocOffsets \<times> string) option \<Rightarrow> Diagnostic" where
  "beginError ctx l what header fix =
     Diagnostic l what (if willBuild ctx l what then Some (header, fix) else None)"

text \<open>The member \<^verbatim>\<open>loc\<close> of a node. \<^verbatim>\<open>EmptyTree\<close> carries the default location;
  callers test for the null pointer before they read this member.\<close>

primrec Expression_loc :: "MutableContext \<Rightarrow> Expression \<Rightarrow> LocOffsets" where
  "Expression_loc ctx Nullptr = LocOffsets_none ctx"
| "Expression_loc ctx EmptyTree = LocOffsets_none ctx"
| "Expression_loc ctx (Send l r f as) = l"
| "Expression_loc ctx (UnresolvedConstantLit l s c) = l"
| "Expression_loc ctx (ConstantLit l s) = l"
| "Expression_loc ctx (Literal l v) = l"
| "Expression_loc ctx (Hash l ks vs) = l"
| "Expression_loc ctx (OtherNode l k es) = l"
| "Expression_loc ctx (MK_Sig l a b) = l"
| "Expression_loc ctx (MK_Sig0 l a) = l"
| "Expression_loc ctx (MK_Sig1 l a b c) = l"
| "Expression_loc ctx (MK_SigVoid l a) = l"
| "Expression_loc ctx (MK_Hash0 l) = l"
| "Expression_loc ctx (MK_Hash1 l a b) = l"
| "Expression_loc ctx (MK_Hash l ks vs) = l"
| "Expression_loc ctx (MK_Symbol l n) = l"
| "Expression_loc ctx (MK_Constant l s) = l"
| "Expression_loc ctx (MK_UnresolvedConstant l s c) = l"
| "Expression_loc ctx MK_EmptyTree = LocOffsets_none ctx"
| "Expression_loc ctx (MK_RaiseUnimplemented l) = l"
| "Expression_loc ctx (MK_Nil l) = l"
| "Expression_loc ctx (MK_Self l) = l"
| "Expression_loc ctx (MK_Unsafe l a) = l"
| "Expression_loc ctx (MK_Untyped l) = l"
| "Expression_loc ctx (MK_Nilable l a) = l"
| "Expression_loc ctx (MK_AssertType l a b) = l"
| "Expression_loc ctx (MK_Send0 l r f) = l"
| "Expression_loc ctx (MK_Send1 l r f a) = l"
| "Expression_loc ctx (MK_Send2 l r f a b) = l"
| "Expression_loc ctx (MK_InsSeq1 l a b) = l"
| "Expression_loc ctx (MK_InsSeq l es a) = l"
| "Expression_loc ctx (MK_Instance l n) = l"
| "Expression_loc ctx (MK_Local l n) = l"
| "Expression_loc ctx (MK_KeywordArg l a) = l"
| "Expression_loc ctx (MK_OptionalArg l a b) = l"
| "Expression_loc ctx (MK_RestArg l a) = l"
| "Expression_loc ctx (MK_Assign l a b) = l"
| "Expression_loc ctx (MK_ZSuper l) = l"
| "Expression_loc ctx (MK_SyntheticMethod l d n as b) = l"
| "Expression_loc ctx (MK_SyntheticMethod1 l d n a b) = l"
| "Expression_loc ctx (MK_Class l d n as rs) = l"
| "Expression_loc ctx (ASTUtil_mkGet l n b) = l"
| "Expression_loc ctx (ASTUtil_mkSet l n nl b) = l"
| "Expression_loc ctx (ASTUtil_mkMutator l n) = l"

text \<open>\<^verbatim>\<open>Expression::deepCopy\<close>, called through a pointer.\<close>

definition deepCopy :: "Expression \<Rightarrow> error + Expression" where
  "deepCopy e = (if e = Nullptr then Inl NullDereference else Inr e)"

subsection \<open>The syntactic tests\<close>

definition isT :: "Expression \<Rightarrow> bool" where
  "isT expr =
     (case cast_UnresolvedConstantLit expr of
        None \<Rightarrow> False
      | Some (l, scope, cnst) \<Rightarrow>
          if cnst \<noteq> Constants_T then False
          else if isa_EmptyTree scope then True
          else (case cast_ConstantLit scope of
                  None \<Rightarrow> False
                | Some (rl, symbol) \<Rightarrow> symbol = Symbols_root))"

definition isTNilable :: "Expression \<Rightarrow> bool" where
  "isTNilable expr =
     (case cast_Send expr of
        None \<Rightarrow> False
      | Some (l, recv, f, as) \<Rightarrow> f = Names_nilable \<and> isT recv)"

definition isTStruct :: "Expression \<Rightarrow> bool" where
  "isTStruct expr =
     (case cast_UnresolvedConstantLit expr of
        None \<Rightarrow> False
      | Some (l, scope, cnst) \<Rightarrow> cnst = Constants_Struct \<and> isT scope)"

subsection \<open>\<^verbatim>\<open>parseProp\<close>\<close>

record PropInfo =
  loc :: LocOffsets
  isImmutable :: bool
  name :: NameRef
  nameLoc :: LocOffsets
  type :: Expression
  default' :: Expression
  computedByMethodName :: NameRef
  computedByMethodNameLoc :: LocOffsets
  foreign :: Expression
  ifunset :: Expression

definition PropInfo_new :: "MutableContext \<Rightarrow> PropInfo" where
  "PropInfo_new ctx =
     \<lparr>loc = LocOffsets_none ctx, isImmutable = False, name = noName,
      nameLoc = LocOffsets_none ctx, type = Nullptr, default' = Nullptr,
      computedByMethodName = noName, computedByMethodNameLoc = LocOffsets_none ctx,
      foreign = Nullptr, ifunset = Nullptr\<rparr>"

text \<open>Lines 60-97: the switch on the name of the send. \<open>None\<close> is the default case.\<close>

definition parseProp_fun :: "MutableContext \<Rightarrow> LocOffsets \<Rightarrow> NameRef \<Rightarrow> PropInfo option" where
  "parseProp_fun ctx sendLoc f =
     (let ret = (PropInfo_new ctx)\<lparr>loc := sendLoc\<rparr> in
      if f = Names_prop then Some ret
      else if f = Names_const then Some (ret\<lparr>isImmutable := True\<rparr>)
      else if f = Names_tokenProp \<or> f = Names_timestampedTokenProp then
        Some (ret\<lparr>name := Names_token,
                  nameLoc := LocOffsets
                    (beginPos sendLoc + (if f = Names_timestampedTokenProp then 12 else 0))
                    (endPos sendLoc - 5),
                  type := MK_Constant sendLoc Symbols_String\<rparr>)
      else if f = Names_createdProp then
        Some (ret\<lparr>name := Names_created,
                  nameLoc := LocOffsets (beginPos sendLoc) (endPos sendLoc - 5),
                  type := MK_Constant sendLoc Symbols_Float\<rparr>)
      else if f = Names_merchantProp then
        Some (ret\<lparr>isImmutable := True, name := Names_merchant,
                  nameLoc := LocOffsets (beginPos sendLoc) (endPos sendLoc - 5),
                  type := MK_Constant sendLoc Symbols_String\<rparr>)
      else None)"

text \<open>Lines 104-117: the name of the property. \<open>Inr None\<close> is \<^verbatim>\<open>return nullopt\<close>.\<close>

definition parseProp_name ::
  "MutableContext \<Rightarrow> Expression list \<Rightarrow> PropInfo \<Rightarrow> error + PropInfo option" where
  "parseProp_name ctx args ret =
     (if \<not> NameRef_exists (name ret) then
        if args = [] then Inr None
        else (case cast_Literal (args ! 0) of
                None \<Rightarrow> Inr None
              | Some (symLoc, v) \<Rightarrow>
                  if \<not> isSymbol v then Inr None
                  else if \<not> (source ctx symLoc \<noteq> [] \<and> source ctx symLoc ! 0 = CHR '':'')
                    then Inl EnforceFailed
                  else Inr (Some (ret\<lparr>name := asSymbol v,
                                     nameLoc := LocOffsets (beginPos symLoc + 1) (endPos symLoc)\<rparr>)))
      else Inr (Some ret))"

text \<open>Lines 119-133: the type of the property, and the \<^verbatim>\<open>ENFORCE\<close> that it can be
  duplicated.\<close>

definition parseProp_type ::
  "MutableContext \<Rightarrow> Expression list \<Rightarrow> PropInfo \<Rightarrow> error + PropInfo option" where
  "parseProp_type ctx args ret =
     (if type ret = Nullptr then
        if length args = 1 then Inr None
        else if length args < 2 then Inl OutOfBounds
        else (let t = dupType ctx (args ! 1) in
              if t = Nullptr then Inr None
              else if dupType ctx t = Nullptr then Inl EnforceFailed
              else Inr (Some (ret\<lparr>type := t\<rparr>)))
      else if dupType ctx (type ret) = Nullptr then Inl EnforceFailed
      else Inr (Some ret))"

text \<open>Lines 135-147: the deep copy of a trailing hash, null when there is none.\<close>

definition parseProp_rules :: "Expression list \<Rightarrow> Expression" where
  "parseProp_rules args =
     (if args \<noteq> [] then
        (case cast_Hash (last args) of
           None \<Rightarrow> Nullptr
         | Some (l, ks, vs) \<Rightarrow> Hash l ks vs)
      else Nullptr)"

text \<open>Lines 152-161: \<^verbatim>\<open>immutable\<close>, \<^verbatim>\<open>factory\<close>, \<^verbatim>\<open>default\<close>. The hash is
  threaded through: \<^verbatim>\<open>extractHashValue\<close> takes the entry out of it.\<close>

definition parseProp_default ::
  "MutableContext \<Rightarrow> PropInfo \<Rightarrow> Expression \<Rightarrow> PropInfo \<times> Expression" where
  "parseProp_default ctx ret0 rules =
     (let ret = (if hasTruthyHashValue ctx rules Names_immutable
                 then ret0\<lparr>isImmutable := True\<rparr> else ret0) in
      if hasTruthyHashValue ctx rules Names_factory then
        (ret\<lparr>default' := MK_RaiseUnimplemented (loc ret)\<rparr>, rules)
      else if hasHashValue ctx rules Names_default then
        (case extractHashValue ctx rules Names_default of
           ((key, val), rules') \<Rightarrow> (ret\<lparr>default' := val\<rparr>, rules'))
      else (ret, rules))"

text \<open>Lines 163-175: \<^verbatim>\<open>computed_by\<close>. The else branch reads \<^verbatim>\<open>val->loc\<close> and
  opens the diagnostic.\<close>

definition computedBy_header :: string where
  "computedBy_header = ''Value for `computed_by` must be a symbol literal''"

definition parseProp_computedBy_else ::
  "MutableContext \<Rightarrow> PropInfo \<Rightarrow> Expression \<Rightarrow> Expression \<Rightarrow>
   error + (PropInfo \<times> Expression \<times> Diagnostic list)" where
  "parseProp_computedBy_else ctx ret rules val =
     (if val = Nullptr then Inl NullDereference
      else Inr (ret, rules,
                [beginError ctx (Expression_loc ctx val) ComputedBySymbol
                   computedBy_header None]))"

definition parseProp_computedBy ::
  "MutableContext \<Rightarrow> PropInfo \<Rightarrow> Expression \<Rightarrow>
   error + (PropInfo \<times> Expression \<times> Diagnostic list)" where
  "parseProp_computedBy ctx ret rules =
     (if hasTruthyHashValue ctx rules Names_computedBy then
        (case extractHashValue ctx rules Names_computedBy of
           ((key, val), rules') \<Rightarrow>
             (case cast_Literal val of
                Some (litLoc, v) \<Rightarrow>
                  if isSymbol v then
                    Inr (ret\<lparr>computedByMethodNameLoc := litLoc,
                             computedByMethodName := asSymbol v\<rparr>, rules', [])
                  else parseProp_computedBy_else ctx ret rules' val
              | None \<Rightarrow> parseProp_computedBy_else ctx ret rules' val))
      else Inr (ret, rules, []))"

text \<open>Lines 177-189: \<^verbatim>\<open>foreign\<close>.\<close>

definition parseProp_foreign ::
  "MutableContext \<Rightarrow> PropInfo \<Rightarrow> Expression \<Rightarrow> PropInfo \<times> Expression \<times> Diagnostic list" where
  "parseProp_foreign ctx ret rules =
     (case extractHashValue ctx rules Names_foreign of
        ((fk, foreignTree), rules') \<Rightarrow>
          if foreignTree \<noteq> Nullptr then
            (let body = thunkBody ctx foreignTree in
             if body \<noteq> Nullptr then (ret\<lparr>foreign := body\<rparr>, rules', [])
             else
               (ret\<lparr>foreign := foreignTree\<rparr>, rules',
                [beginError ctx (Expression_loc ctx foreignTree) PropForeignStrict
                   ''The argument to `foreign:` must be a lambda''
                   (Some (''Convert to lambda'', Expression_loc ctx foreignTree,
                          ''-> {'' @ source ctx (Expression_loc ctx foreignTree) @ ''}''))]))
          else (ret, rules', []))"

text \<open>Lines 191-194: \<^verbatim>\<open>ifunset\<close>.\<close>

definition parseProp_ifunset ::
  "MutableContext \<Rightarrow> PropInfo \<Rightarrow> Expression \<Rightarrow> PropInfo" where
  "parseProp_ifunset ctx ret rules =
     (case extractHashValue ctx rules Names_ifunset of
        ((ifunsetKey, v), rules') \<Rightarrow> if v \<noteq> Nullptr then ret\<lparr>ifunset := v\<rparr> else ret)"

text \<open>Lines 151-195 together: the options, when there is a rules hash.\<close>

definition parseProp_options ::
  "MutableContext \<Rightarrow> PropInfo \<Rightarrow> Expression \<Rightarrow> error + (PropInfo \<times> Diagnostic list)" where
  "parseProp_options ctx ret rules =
     (if rules \<noteq> Nullptr then
        (case parseProp_default ctx ret rules of
           (ret1, rules1) \<Rightarrow>
             (case parseProp_computedBy ctx ret1 rules1 of
                Inl e \<Rightarrow> Inl e
              | Inr (ret2, rules2, errs2) \<Rightarrow>
                  (case parseProp_foreign ctx ret2 rules2 of
                     (ret3, rules3, errs3) \<Rightarrow>
                       Inr (parseProp_ifunset ctx ret3 rules3, errs2 @ errs3))))
      else Inr (ret, []))"

text \<open>Lines 197-199: a nilable type without default defaults to nil.\<close>

definition parseProp_nilable :: "PropInfo \<Rightarrow> PropInfo" where
  "parseProp_nilable ret =
     (if default' ret = Nullptr \<and> isTNilable (type ret)
      then ret\<lparr>default' := MK_Nil (loc ret)\<rparr> else ret)"

text \<open>Lines 60-147: is this a send we care about, and what are its name, its type
  and its rules hash? The arguments are the members \<^verbatim>\<open>loc\<close>, \<^verbatim>\<open>fun\<close> and \<^verbatim>\<open>args\<close> of
  the send; \<open>Inr None\<close> is \<^verbatim>\<open>return nullopt\<close>.\<close>

definition parseProp_classify ::
  "MutableContext \<Rightarrow> LocOffsets \<Rightarrow> NameRef \<Rightarrow> Expression list \<Rightarrow>
   error + (PropInfo \<times> Expression) option" where
  "parseProp_classify ctx sendLoc f args =
     (case parseProp_fun ctx sendLoc f of
        None \<Rightarrow> Inr None
      | Some ret0 \<Rightarrow>
          if length args \<ge> 4 then Inr None
          else
            (case parseProp_name ctx args ret0 of
               Inl e \<Rightarrow> Inl e
             | Inr None \<Rightarrow> Inr None
             | Inr (Some ret1) \<Rightarrow>
                 (case parseProp_type ctx args ret1 of
                    Inl e \<Rightarrow> Inl e
                  | Inr None \<Rightarrow> Inr None
                  | Inr (Some ret2) \<Rightarrow>
                      (let rules = parseProp_rules args in
                       if rules = Nullptr \<and> length args \<ge> 3 then Inr None
                       else Inr (Some (ret2, rules))))))"

text \<open>\<^verbatim>\<open>parseProp\<close>: the optional record and the diagnostics opened on the way. No
  diagnostic is opened before the options are parsed.\<close>

definition parseProp ::
  "MutableContext \<Rightarrow> LocOffsets \<Rightarrow> NameRef \<Rightarrow> Expression list \<Rightarrow>
   error + (PropInfo option \<times> Diagnostic list)" where
  "parseProp ctx sendLoc f args =
     (case parseProp_classify ctx sendLoc f args of
        Inl e \<Rightarrow> Inl e
      | Inr None \<Rightarrow> Inr (None, [])
      | Inr (Some (ret2, rules)) \<Rightarrow>
          (case parseProp_options ctx ret2 rules of
             Inl e \<Rightarrow> Inl e
           | Inr (ret3, errs) \<Rightarrow> Inr (Some (parseProp_nilable ret3), errs)))"

subsection \<open>\<^verbatim>\<open>processProp\<close>\<close>

text \<open>Lines 212-237: the sig and the getter.\<close>

definition processProp_getter :: "MutableContext \<Rightarrow> PropInfo \<Rightarrow> bool \<Rightarrow> Expression list" where
  "processProp_getter ctx ret forTStruct =
     (let getType = dupType ctx (type ret);
          varName = addAt (name ret);
          sig = MK_Sig (loc ret) (MK_Hash0 (loc ret)) (dupType ctx getType)
      in
      if NameRef_exists (computedByMethodName ret) then
        (let selfSendClass =
               MK_Send0 (computedByMethodNameLoc ret) (MK_Self (loc ret)) Names_class;
             unsafeNil =
               MK_Unsafe (computedByMethodNameLoc ret) (MK_Nil (computedByMethodNameLoc ret));
             sendComputedMethod =
               MK_Send1 (computedByMethodNameLoc ret) selfSendClass
                 (computedByMethodName ret) unsafeNil;
             assertTypeMatches =
               MK_AssertType (computedByMethodNameLoc ret) sendComputedMethod
                 (dupType ctx getType);
             insSeq = MK_InsSeq1 (loc ret) assertTypeMatches (MK_RaiseUnimplemented (loc ret))
         in [sig, ASTUtil_mkGet (loc ret) (name ret) insSeq])
      else if ifunset ret = Nullptr \<and> forTStruct then
        [sig, ASTUtil_mkGet (loc ret) (name ret) (MK_Instance (nameLoc ret) varName)]
      else
        [sig, ASTUtil_mkGet (loc ret) (name ret) (MK_RaiseUnimplemented (loc ret))])"

text \<open>Lines 239-248: the setter of the class.\<close>

definition processProp_setter :: "MutableContext \<Rightarrow> PropInfo \<Rightarrow> Expression list" where
  "processProp_setter ctx ret =
     (if \<not> isImmutable ret then
        (let setType = dupType ctx (type ret) in
         [MK_Sig (loc ret)
            (MK_Hash1 (loc ret) (MK_Symbol (nameLoc ret) Names_arg0) (dupType ctx setType))
            (dupType ctx setType),
          ASTUtil_mkSet (loc ret) (addEq (name ret)) (nameLoc ret)
            (MK_RaiseUnimplemented (loc ret))])
      else [])"

text \<open>Lines 250-291: the two foreign accessors.\<close>

definition processProp_foreign :: "MutableContext \<Rightarrow> PropInfo \<Rightarrow> Expression list" where
  "processProp_foreign ctx ret =
     (if foreign ret \<noteq> Nullptr then
        (let (type', nonNilType) =
               (if dupType ctx (foreign ret) = Nullptr
                then (MK_Untyped (loc ret), MK_Untyped (loc ret))
                else (MK_Nilable (loc ret) (dupType ctx (foreign ret)),
                      dupType ctx (foreign ret)));
             fkMethod = enterNameUTF8 (NameRef_show (name ret) @ ''_'');
             arg = MK_RestArg (nameLoc ret)
                     (MK_KeywordArg (nameLoc ret) (MK_Local (nameLoc ret) Names_opts));
             fkMethodBang = enterNameUTF8 (NameRef_show (name ret) @ ''_!'');
             arg2 = MK_RestArg (nameLoc ret)
                      (MK_KeywordArg (nameLoc ret) (MK_Local (nameLoc ret) Names_opts))
         in
         [MK_Sig1 (loc ret) (MK_Symbol (nameLoc ret) Names_opts) (MK_Untyped (loc ret)) type',
          MK_SyntheticMethod1 (loc ret) (loc ret) fkMethod arg (MK_RaiseUnimplemented (loc ret)),
          MK_Sig1 (loc ret) (MK_Symbol (nameLoc ret) Names_opts) (MK_Untyped (loc ret))
            nonNilType,
          MK_SyntheticMethod1 (loc ret) (loc ret) fkMethodBang arg2
            (MK_RaiseUnimplemented (loc ret))])
      else [])"

text \<open>Lines 303-328: the type of the mutator, null unless the type of the property is
  probably \<^verbatim>\<open>Hash\<close> or \<^verbatim>\<open>Array\<close>. The last branch of the source (an unresolved
  constant) holds a comment only.\<close>

definition processProp_mutatorType :: "MutableContext \<Rightarrow> PropInfo \<Rightarrow> Expression" where
  "processProp_mutatorType ctx ret =
     (if isProbablySymbol ctx (type ret) Symbols_Hash then
        (let mutator = ASTUtil_mkMutator (loc ret) Constants_HashMutator in
         case cast_Send (type ret) of
           Some (l, recv, f, as) \<Rightarrow>
             if f = Names_squareBrackets \<and> length as = 2 then
               MK_Send2 (loc ret) mutator Names_squareBrackets
                 (dupType ctx (as ! 0)) (dupType ctx (as ! 1))
             else
               MK_Send2 (loc ret) mutator Names_squareBrackets
                 (MK_Untyped (loc ret)) (MK_Untyped (loc ret))
         | None \<Rightarrow>
             MK_Send2 (loc ret) mutator Names_squareBrackets
               (MK_Untyped (loc ret)) (MK_Untyped (loc ret)))
      else if isProbablySymbol ctx (type ret) Symbols_Array then
        (let mutator = ASTUtil_mkMutator (loc ret) Constants_ArrayMutator in
         case cast_Send (type ret) of
           Some (l, recv, f, as) \<Rightarrow>
             if f = Names_squareBrackets \<and> length as = 1 then
               MK_Send1 (loc ret) mutator Names_squareBrackets (dupType ctx (as ! 0))
             else
               MK_Send1 (loc ret) mutator Names_squareBrackets (MK_Untyped (loc ret))
         | None \<Rightarrow>
             MK_Send1 (loc ret) mutator Names_squareBrackets (MK_Untyped (loc ret)))
      else Nullptr)"

text \<open>Lines 293-340: the statements of the mutator class are built first; the class
  is added to the nodes only when there is a mutator type.\<close>

definition processProp_mutator :: "MutableContext \<Rightarrow> PropInfo \<Rightarrow> Expression list" where
  "processProp_mutator ctx ret =
     (let setType = dupType ctx (type ret);
          rhs0 = [MK_Sig (loc ret)
                    (MK_Hash1 (loc ret) (MK_Symbol (nameLoc ret) Names_arg0)
                       (dupType ctx setType))
                    (dupType ctx setType),
                  ASTUtil_mkSet (loc ret) (addEq (name ret)) (nameLoc ret)
                    (MK_RaiseUnimplemented (loc ret))];
          mutator = processProp_mutatorType ctx ret
      in
      if mutator \<noteq> Nullptr then
        [MK_Class (loc ret) (loc ret)
           (MK_UnresolvedConstant (loc ret) MK_EmptyTree Constants_Mutator) []
           (rhs0 @ [MK_Sig0 (loc ret) (dupType ctx mutator),
                    ASTUtil_mkGet (loc ret) (name ret) (MK_RaiseUnimplemented (loc ret))])]
      else [])"

definition processProp :: "MutableContext \<Rightarrow> PropInfo \<Rightarrow> bool \<Rightarrow> Expression list" where
  "processProp ctx ret forTStruct =
     processProp_getter ctx ret forTStruct @ processProp_setter ctx ret
     @ processProp_foreign ctx ret @ processProp_mutator ctx ret"

subsection \<open>\<^verbatim>\<open>mkTStructInitialize\<close>\<close>

text \<open>The three loops over \<^verbatim>\<open>props\<close>; the accumulator of the first two holds
  \<^verbatim>\<open>args\<close>, \<^verbatim>\<open>sigKeys\<close> and \<^verbatim>\<open>sigVals\<close>.\<close>

fun mkTStructInitialize_required ::
  "PropInfo list \<Rightarrow> Expression list \<times> Expression list \<times> Expression list \<Rightarrow>
   error + (Expression list \<times> Expression list \<times> Expression list)" where
  "mkTStructInitialize_required [] acc = Inr acc"
| "mkTStructInitialize_required (prop # props) (args, sigKeys, sigVals) =
     (if default' prop \<noteq> Nullptr then
        mkTStructInitialize_required props (args, sigKeys, sigVals)
      else
        (case deepCopy (type prop) of
           Inl e \<Rightarrow> Inl e
         | Inr ty \<Rightarrow>
             mkTStructInitialize_required props
               (args @ [MK_KeywordArg (loc prop) (MK_Local (loc prop) (name prop))],
                sigKeys @ [MK_Symbol (loc prop) (name prop)],
                sigVals @ [ty])))"

fun mkTStructInitialize_optional ::
  "PropInfo list \<Rightarrow> Expression list \<times> Expression list \<times> Expression list \<Rightarrow>
   error + (Expression list \<times> Expression list \<times> Expression list)" where
  "mkTStructInitialize_optional [] acc = Inr acc"
| "mkTStructInitialize_optional (prop # props) (args, sigKeys, sigVals) =
     (if default' prop = Nullptr then
        mkTStructInitialize_optional props (args, sigKeys, sigVals)
      else
        (case deepCopy (default' prop) of
           Inl e \<Rightarrow> Inl e
         | Inr dflt \<Rightarrow>
             (case deepCopy (type prop) of
                Inl e \<Rightarrow> Inl e
              | Inr ty \<Rightarrow>
                  mkTStructInitialize_optional props
                    (args @ [MK_OptionalArg (loc prop)
                               (MK_KeywordArg (loc prop) (MK_Local (loc prop) (name prop)))
                               dflt],
                     sigKeys @ [MK_Symbol (loc prop) (name prop)],
                     sigVals @ [ty]))))"

fun mkTStructInitialize_stats :: "PropInfo list \<Rightarrow> Expression list \<Rightarrow> Expression list" where
  "mkTStructInitialize_stats [] stats = stats"
| "mkTStructInitialize_stats (prop # props) stats =
     (let varName = addAt (name prop) in
      mkTStructInitialize_stats props
        (stats @ [MK_Assign (loc prop) (MK_Instance (nameLoc prop) varName)
                    (MK_Local (nameLoc prop) (name prop))]))"

definition mkTStructInitialize ::
  "MutableContext \<Rightarrow> LocOffsets \<Rightarrow> PropInfo list \<Rightarrow> error + Expression list" where
  "mkTStructInitialize ctx klassLoc props =
     (case mkTStructInitialize_required props ([], [], []) of
        Inl e \<Rightarrow> Inl e
      | Inr acc1 \<Rightarrow>
          (case mkTStructInitialize_optional props acc1 of
             Inl e \<Rightarrow> Inl e
           | Inr (args, sigKeys, sigVals) \<Rightarrow>
               (let stats = mkTStructInitialize_stats props [];
                    body = MK_InsSeq klassLoc stats (MK_ZSuper klassLoc)
                in Inr [MK_SigVoid klassLoc (MK_Hash klassLoc sigKeys sigVals),
                        MK_SyntheticMethod klassLoc klassLoc Names_initialize args body])))"

text \<open>The pieces the initializer makes of one record, and the two partitions of the
  records, to state what the loops compute.\<close>

definition requiredArg :: "PropInfo \<Rightarrow> Expression" where
  "requiredArg p = MK_KeywordArg (loc p) (MK_Local (loc p) (name p))"

definition optionalArg :: "PropInfo \<Rightarrow> Expression" where
  "optionalArg p =
     MK_OptionalArg (loc p) (MK_KeywordArg (loc p) (MK_Local (loc p) (name p))) (default' p)"

definition sigKey :: "PropInfo \<Rightarrow> Expression" where
  "sigKey p = MK_Symbol (loc p) (name p)"

definition fieldAssign :: "PropInfo \<Rightarrow> Expression" where
  "fieldAssign p =
     MK_Assign (loc p) (MK_Instance (nameLoc p) (addAt (name p))) (MK_Local (nameLoc p) (name p))"

definition requiredProps :: "PropInfo list \<Rightarrow> PropInfo list" where
  "requiredProps props = filter (\<lambda>p. default' p = Nullptr) props"

definition optionalProps :: "PropInfo list \<Rightarrow> PropInfo list" where
  "optionalProps props = filter (\<lambda>p. default' p \<noteq> Nullptr) props"

subsection \<open>\<^verbatim>\<open>Prop::run\<close>\<close>

text \<open>The members of \<^verbatim>\<open>ast::ClassDef\<close> that \<^verbatim>\<open>run\<close> reads and writes.\<close>

record ClassDef =
  klassLoc :: LocOffsets
  ancestors :: "Expression list"
  rhs :: "Expression list"

text \<open>Lines 408-421, the body of the first loop: what one statement contributes (its
  replacement nodes and its record, if it is a property) and the diagnostics.\<close>

definition run_stat ::
  "MutableContext \<Rightarrow> bool \<Rightarrow> Expression \<Rightarrow>
   error + ((Expression list \<times> PropInfo) option \<times> Diagnostic list)" where
  "run_stat ctx forTStruct stat =
     (case cast_Send stat of
        None \<Rightarrow> Inr (None, [])
      | Some (sendLoc, recv, f, args) \<Rightarrow>
          (case parseProp ctx sendLoc f args of
             Inl e \<Rightarrow> Inl e
           | Inr (None, errs) \<Rightarrow> Inr (None, errs)
           | Inr (Some propInfo, errs) \<Rightarrow>
               (let nodes = processProp ctx propInfo forTStruct in
                if nodes = [] then Inl EnforceFailed
                else Inr (Some (nodes, propInfo), errs))))"

text \<open>The first loop. The key \<^verbatim>\<open>stat.get()\<close> of \<^verbatim>\<open>replaceNodes\<close> is the address of a
  statement of the body; the statements are distinct objects, so the key is the
  position \<open>i\<close> of the statement in \<^verbatim>\<open>klass->rhs\<close>.\<close>

fun run_scan ::
  "MutableContext \<Rightarrow> bool \<Rightarrow> Expression list \<Rightarrow> nat \<Rightarrow>
   (nat \<rightharpoonup> Expression list) \<times> PropInfo list \<times> Diagnostic list \<Rightarrow>
   error + ((nat \<rightharpoonup> Expression list) \<times> PropInfo list \<times> Diagnostic list)" where
  "run_scan ctx forTStruct [] i acc = Inr acc"
| "run_scan ctx forTStruct (stat # stats) i (replaceNodes, props, errs) =
     (case run_stat ctx forTStruct stat of
        Inl e \<Rightarrow> Inl e
      | Inr (None, es) \<Rightarrow>
          run_scan ctx forTStruct stats (Suc i) (replaceNodes, props, errs @ es)
      | Inr (Some (nodes, propInfo), es) \<Rightarrow>
          run_scan ctx forTStruct stats (Suc i)
            (replaceNodes(i \<mapsto> nodes), props @ [propInfo], errs @ es))"

text \<open>Lines 432-440, the last loop over \<^verbatim>\<open>oldRHS\<close>, appending to \<^verbatim>\<open>klass->rhs\<close>.\<close>

fun run_rebuild ::
  "(nat \<rightharpoonup> Expression list) \<Rightarrow> Expression list \<Rightarrow> nat \<Rightarrow> Expression list \<Rightarrow>
   Expression list" where
  "run_rebuild replaceNodes [] i newRHS = newRHS"
| "run_rebuild replaceNodes (stat # stats) i newRHS =
     (case replaceNodes i of
        None \<Rightarrow> run_rebuild replaceNodes stats (Suc i) (newRHS @ [stat])
      | Some newNodes \<Rightarrow> run_rebuild replaceNodes stats (Suc i) (newRHS @ newNodes))"

definition run :: "MutableContext \<Rightarrow> ClassDef \<Rightarrow> error + (ClassDef \<times> Diagnostic list)" where
  "run ctx klass =
     (if runningUnderAutogen ctx then Inr (klass, [])
      else
        (let forTStruct = list_ex isTStruct (ancestors klass) in
         case run_scan ctx forTStruct (rhs klass) 0 (Map.empty, [], []) of
           Inl e \<Rightarrow> Inl e
         | Inr (replaceNodes, props, errs) \<Rightarrow>
             (case (if forTStruct then mkTStructInitialize ctx (klassLoc klass) props
                    else Inr []) of
                Inl e \<Rightarrow> Inl e
              | Inr initialize \<Rightarrow>
                  Inr (klass\<lparr>rhs := run_rebuild replaceNodes (rhs klass) 0 initialize\<rparr>,
                       errs))))"

text \<open>What the two loops do with one statement: its stored replacement, if any, and
  the statements emitted for it.\<close>

definition replacement :: "MutableContext \<Rightarrow> bool \<Rightarrow> Expression \<Rightarrow> Expression list option" where
  "replacement ctx forTStruct stat =
     (case run_stat ctx forTStruct stat of
        Inr (Some (nodes, propInfo), errs) \<Rightarrow> Some nodes
      | _ \<Rightarrow> None)"

definition emitted :: "(nat \<rightharpoonup> Expression list) \<Rightarrow> Expression list \<Rightarrow> nat \<Rightarrow> Expression list" where
  "emitted replaceNodes oldRHS i =
     (case replaceNodes i of None \<Rightarrow> [oldRHS ! i] | Some newNodes \<Rightarrow> newNodes)"

definition isSymbolLiteral :: "Expression \<Rightarrow> bool" where
  "isSymbolLiteral e = (case cast_Literal e of None \<Rightarrow> False | Some (l, v) \<Rightarrow> isSymbol v)"

subsection \<open>The declarations of a body and their options\<close>

text \<open>The record of a statement: the record that \<^verbatim>\<open>parseProp\<close> returns when the statement
  is a send that it recognises. The records of a body are the records of its statements,
  in the order of the statements.\<close>

definition recordOf :: "MutableContext \<Rightarrow> Expression \<Rightarrow> PropInfo option" where
  "recordOf ctx stat =
     (case cast_Send stat of
        None \<Rightarrow> None
      | Some (sendLoc, recv, f, args) \<Rightarrow>
          (case parseProp ctx sendLoc f args of
             Inr (Some propInfo, errs) \<Rightarrow> Some propInfo
           | _ \<Rightarrow> None))"

definition recordsOf :: "MutableContext \<Rightarrow> Expression list \<Rightarrow> PropInfo list" where
  "recordsOf ctx stats =
     concat (map (\<lambda>stat. case recordOf ctx stat of None \<Rightarrow> [] | Some propInfo \<Rightarrow> [propInfo])
               stats)"

text \<open>The rules hash as the steps of lines 152-194 leave it: \<^verbatim>\<open>extractHashValue\<close> takes
  the \<^verbatim>\<open>default\<close> entry out unless a truthy \<^verbatim>\<open>factory\<close> comes first, then a truthy
  \<^verbatim>\<open>computed_by\<close> entry, then the \<^verbatim>\<open>foreign\<close> entry.\<close>

definition rulesAfterDefault :: "MutableContext \<Rightarrow> Expression \<Rightarrow> Expression" where
  "rulesAfterDefault ctx rules =
     (if hasTruthyHashValue ctx rules Names_factory then rules
      else if hasHashValue ctx rules Names_default
        then snd (extractHashValue ctx rules Names_default)
      else rules)"

definition rulesAfterComputedBy :: "MutableContext \<Rightarrow> Expression \<Rightarrow> Expression" where
  "rulesAfterComputedBy ctx rules =
     (if hasTruthyHashValue ctx rules Names_computedBy
      then snd (extractHashValue ctx rules Names_computedBy)
      else rules)"

definition rulesAfterForeign :: "MutableContext \<Rightarrow> Expression \<Rightarrow> Expression" where
  "rulesAfterForeign ctx rules = snd (extractHashValue ctx rules Names_foreign)"

text \<open>What a declaration with the arguments \<open>args\<close> says of \<^verbatim>\<open>computed_by\<close> and of
  \<^verbatim>\<open>ifunset\<close>. The computed-by method is declared when the rules hash has a truthy
  \<^verbatim>\<open>computed_by\<close> whose value is the symbol literal of a name: the location of the literal
  and the name. The if-unset value is the value of the \<^verbatim>\<open>ifunset\<close> entry, null when there
  is no rules hash or no such entry.\<close>

definition declaredComputedBy ::
  "MutableContext \<Rightarrow> Expression list \<Rightarrow> (LocOffsets \<times> NameRef) option" where
  "declaredComputedBy ctx args =
     (let rules = parseProp_rules args in
      if rules = Nullptr then None
      else
        (let rules1 = rulesAfterDefault ctx rules in
         if hasTruthyHashValue ctx rules1 Names_computedBy then
           (case cast_Literal (snd (fst (extractHashValue ctx rules1 Names_computedBy))) of
              None \<Rightarrow> None
            | Some (litLoc, v) \<Rightarrow>
                if isSymbol v \<and> NameRef_exists (asSymbol v) then Some (litLoc, asSymbol v)
                else None)
         else None))"

definition declaredIfunset :: "MutableContext \<Rightarrow> Expression list \<Rightarrow> Expression" where
  "declaredIfunset ctx args =
     (let rules = parseProp_rules args in
      if rules = Nullptr then Nullptr
      else
        snd (fst (extractHashValue ctx
                    (rulesAfterForeign ctx (rulesAfterComputedBy ctx (rulesAfterDefault ctx rules)))
                    Names_ifunset)))"

text \<open>Whether a declaration is immutable: by its macro, or by a truthy \<^verbatim>\<open>immutable\<close> in
  its rules hash.\<close>

definition declaredImmutable :: "MutableContext \<Rightarrow> NameRef \<Rightarrow> Expression list \<Rightarrow> bool" where
  "declaredImmutable ctx f args =
     (f = Names_const \<or> f = Names_merchantProp
      \<or> (parseProp_rules args \<noteq> Nullptr
          \<and> hasTruthyHashValue ctx (parseProp_rules args) Names_immutable))"

subsection \<open>A context to run the pass on examples\<close>

text \<open>The theorems hold for every context. To run the pass on an example the
  collaborators need values; the ones below follow what the spec says of each.\<close>

text \<open>Modelled from the spec: \<^verbatim>\<open>ASTUtil::dupType\<close> (\<^verbatim>\<open>rewriter/Util.cc\<close> is not among the
  sources), the clone of an expression that is "structurally a valid type expression",
  null otherwise. Constants and sends are taken for types here.\<close>

definition example_dupType :: "Expression \<Rightarrow> Expression" where
  "example_dupType e =
     (case e of
        Send l r f as \<Rightarrow> e
      | UnresolvedConstantLit l s c \<Rightarrow> e
      | ConstantLit l s \<Rightarrow> e
      | MK_Constant l s \<Rightarrow> e
      | MK_Send1 l r f a \<Rightarrow> e
      | MK_Send2 l r f a b \<Rightarrow> e
      | _ \<Rightarrow> Nullptr)"

text \<open>Modelled from the spec: the lookup behind \<^verbatim>\<open>ASTUtil::hasHashValue\<close>,
  \<^verbatim>\<open>hasTruthyHashValue\<close> and \<^verbatim>\<open>extractHashValue\<close> (not among the sources), "extracting by
  recognized key": the position of the first key that is the symbol literal of that
  name.\<close>

fun example_findKey :: "NameRef \<Rightarrow> Expression list \<Rightarrow> nat option" where
  "example_findKey n [] = None"
| "example_findKey n (k # ks) =
     (case cast_Literal k of
        Some (l, v) \<Rightarrow>
          if isSymbol v \<and> asSymbol v = n then Some 0
          else map_option Suc (example_findKey n ks)
      | None \<Rightarrow> map_option Suc (example_findKey n ks))"

text \<open>Modelled from the spec: \<^verbatim>\<open>ASTUtil::hasHashValue\<close> (not among the sources): the hash
  has the key.\<close>

definition example_hasHashValue :: "Expression \<Rightarrow> NameRef \<Rightarrow> bool" where
  "example_hasHashValue h n =
     (case cast_Hash h of
        None \<Rightarrow> False
      | Some (l, ks, vs) \<Rightarrow> example_findKey n ks \<noteq> None)"

text \<open>Modelled from the spec: \<^verbatim>\<open>ASTUtil::hasTruthyHashValue\<close> (not among the sources):
  the hash has the key with a "truthy" value, that is any value but the literals
  \<^verbatim>\<open>nil\<close> and \<^verbatim>\<open>false\<close>.\<close>

definition example_hasTruthyHashValue :: "Expression \<Rightarrow> NameRef \<Rightarrow> bool" where
  "example_hasTruthyHashValue h n =
     (case cast_Hash h of
        None \<Rightarrow> False
      | Some (l, ks, vs) \<Rightarrow>
          (case example_findKey n ks of
             None \<Rightarrow> False
           | Some i \<Rightarrow>
               i < length vs \<and>
               (case cast_Literal (vs ! i) of
                  None \<Rightarrow> True
                | Some (vl, v) \<Rightarrow> v \<noteq> NilValue \<and> v \<noteq> FalseValue)))"

text \<open>Modelled from the spec: \<^verbatim>\<open>ASTUtil::extractHashValue\<close> (not among the sources): the
  key and the value of the entry, taken out of the hash; two null pointers when the key
  is absent ("key absence is not an error").\<close>

definition example_extractHashValue ::
  "Expression \<Rightarrow> NameRef \<Rightarrow> (Expression \<times> Expression) \<times> Expression" where
  "example_extractHashValue h n =
     (case cast_Hash h of
        None \<Rightarrow> ((Nullptr, Nullptr), h)
      | Some (l, ks, vs) \<Rightarrow>
          (case example_findKey n ks of
             None \<Rightarrow> ((Nullptr, Nullptr), h)
           | Some i \<Rightarrow>
               if i < length vs then
                 ((ks ! i, vs ! i),
                  Hash l (take i ks @ drop (Suc i) ks) (take i vs @ drop (Suc i) vs))
               else ((Nullptr, Nullptr), h)))"

text \<open>Modelled from the spec: \<^verbatim>\<open>ASTUtil::thunkBody\<close> (not among the sources): the body of
  "a zero-argument deferred-evaluation expression", null for any other expression. The
  node \<open>OtherNode l 0 [body]\<close> stands for the thunk \<^verbatim>\<open>-> { body }\<close>.\<close>

definition example_thunkBody :: "Expression \<Rightarrow> Expression" where
  "example_thunkBody e =
     (case e of OtherNode l k es \<Rightarrow> (if k = 0 \<and> length es = 1 then es ! 0 else Nullptr)
      | _ \<Rightarrow> Nullptr)"

text \<open>Modelled from the spec: the names of the well-known symbols (the symbol table is
  not among the sources).\<close>

fun example_symbolName :: "SymbolRef \<Rightarrow> NameRef" where
  "example_symbolName Symbols_root = CONSTANT ''<root>''"
| "example_symbolName Symbols_String = CONSTANT ''String''"
| "example_symbolName Symbols_Float = CONSTANT ''Float''"
| "example_symbolName Symbols_Hash = CONSTANT ''Hash''"
| "example_symbolName Symbols_Array = CONSTANT ''Array''"
| "example_symbolName (Symbols_other k) = noName"

text \<open>Modelled from the spec: \<^verbatim>\<open>ASTUtil::isProbablySymbol\<close> (not among the sources): the
  type is "structurally" the collection: the constant of that name, unscoped or scoped
  by \<^verbatim>\<open>T\<close> or by the root, or an instantiation \<^verbatim>\<open>[]\<close> of it.\<close>

definition example_isConstant :: "Expression \<Rightarrow> SymbolRef \<Rightarrow> bool" where
  "example_isConstant e symbol =
     (case cast_UnresolvedConstantLit e of
        None \<Rightarrow> False
      | Some (l, scope, cnst) \<Rightarrow>
          cnst = example_symbolName symbol \<and>
          (isa_EmptyTree scope \<or> isT scope \<or>
           (case cast_ConstantLit scope of
              None \<Rightarrow> False
            | Some (rl, s) \<Rightarrow> s = Symbols_root)))"

definition example_isProbablySymbol :: "Expression \<Rightarrow> SymbolRef \<Rightarrow> bool" where
  "example_isProbablySymbol e symbol =
     (example_isConstant e symbol \<or>
      (case cast_Send e of
         None \<Rightarrow> False
       | Some (l, recv, f, as) \<Rightarrow> f = Names_squareBrackets \<and> example_isConstant recv symbol))"

text \<open>The example context: the pass runs (no autogen), the sink builds every
  diagnostic, and the source text at any location is \<^verbatim>\<open>:sym\<close>.\<close>

definition example_ctx :: MutableContext where
  "example_ctx =
     \<lparr>runningUnderAutogen = False,
      LocOffsets_none = LocOffsets (- 1) (- 1),
      source = (\<lambda>l. '':sym''),
      willBuild = (\<lambda>l what. True),
      dupType = example_dupType,
      hasHashValue = example_hasHashValue,
      hasTruthyHashValue = example_hasTruthyHashValue,
      extractHashValue = example_extractHashValue,
      thunkBody = example_thunkBody,
      isProbablySymbol = example_isProbablySymbol\<rparr>"

text \<open>Pieces of the examples: a location, the constants \<^verbatim>\<open>String\<close>, \<^verbatim>\<open>Foo\<close> and \<^verbatim>\<open>T\<close>,
  a symbol literal.\<close>

definition at :: "nat \<Rightarrow> nat \<Rightarrow> LocOffsets" where
  "at b e = LocOffsets (of_nat b) (of_nat e)"

definition cnst :: "LocOffsets \<Rightarrow> string \<Rightarrow> Expression" where
  "cnst l s = UnresolvedConstantLit l EmptyTree (CONSTANT s)"

definition symLit :: "LocOffsets \<Rightarrow> string \<Rightarrow> Expression" where
  "symLit l s = Literal l (SymbolValue (UTF8 s))"

text \<open>The record of a property \<open>n\<close> declared at \<open>l\<close> with the symbol at \<open>nl\<close>, type
  \<open>ty\<close> and default \<open>dflt\<close>, and nothing else set.\<close>

definition example_info ::
  "LocOffsets \<Rightarrow> string \<Rightarrow> LocOffsets \<Rightarrow> Expression \<Rightarrow> Expression \<Rightarrow> PropInfo" where
  "example_info l n nl ty dflt =
     \<lparr>loc = l, isImmutable = False, name = UTF8 n, nameLoc = nl, type = ty,
      default' = dflt, computedByMethodName = noName,
      computedByMethodNameLoc = LocOffsets (- 1) (- 1), foreign = Nullptr,
      ifunset = Nullptr\<rparr>"

text \<open>A class that derives from \<^verbatim>\<open>T::Struct\<close> with the given body, and a declaration: the
  send of a macro to \<^verbatim>\<open>self\<close>.\<close>

definition example_struct :: "Expression list \<Rightarrow> ClassDef" where
  "example_struct stats =
     \<lparr>klassLoc = at 0 200,
      ancestors = [UnresolvedConstantLit (at 8 17) (cnst (at 8 9) ''T'') Constants_Struct],
      rhs = stats\<rparr>"

definition decl :: "LocOffsets \<Rightarrow> NameRef \<Rightarrow> Expression list \<Rightarrow> Expression" where
  "decl l f args = Send l (OtherNode l 1 []) f args"

section \<open>Properties\<close>

subsection \<open>The class body\<close>

lemma cast_Send_Some: "cast_Send e = Some (l, r, f, as) \<longleftrightarrow> e = Send l r f as"
  by (cases e) (simp_all add: cast_Send_def)

lemma cast_Send_None_Send [simp]: "cast_Send (Send l r f as) = Some (l, r, f, as)"
  by (simp add: cast_Send_def)

lemma parseProp_classify_many_args:
  "4 \<le> length args \<Longrightarrow> parseProp_classify ctx l f args = Inr None"
  by (simp add: parseProp_classify_def split: option.split)

lemma run_rebuild_eq:
  "run_rebuild rn stats i acc =
     acc @ concat (map (\<lambda>j. case rn (i + j) of None \<Rightarrow> [stats ! j] | Some ns \<Rightarrow> ns) [0..<length stats])"
proof (induction stats arbitrary: i acc)
  case Nil
  then show ?case by simp
next
  case (Cons stat stats)
  have upt: "[0..<length (stat # stats)] = 0 # map Suc [0..<length stats]"
    by (simp add: upt_conv_Cons map_Suc_upt del: upt_Suc)
  have shift: "map (\<lambda>j. case rn (i + j) of None \<Rightarrow> [(stat # stats) ! j] | Some ns \<Rightarrow> ns) [0..<length (stat # stats)]
      = (case rn i of None \<Rightarrow> [stat] | Some ns \<Rightarrow> ns) #
        map (\<lambda>j. case rn (Suc i + j) of None \<Rightarrow> [stats ! j] | Some ns \<Rightarrow> ns) [0..<length stats]"
    unfolding upt by (simp add: comp_def split: option.split)
  show ?case
    unfolding shift using Cons.IH [of "Suc i"]
    by (simp split: option.split)
qed

text \<open>Claim C9. Under \<^verbatim>\<open>runningUnderAutogen\<close> the pass returns the class as it was given,
  with no diagnostic, whatever its statements are.\<close>

theorem run_autogen_unchanged:
  "runningUnderAutogen ctx \<Longrightarrow> run ctx klass = Inr (klass, [])"
  by (simp add: run_def)


theorem run_autogen_unchanged_witness:
  "runningUnderAutogen (example_ctx\<lparr>runningUnderAutogen := True\<rparr>)
   \<and> run (example_ctx\<lparr>runningUnderAutogen := True\<rparr>)
        \<lparr>klassLoc = at 0 60, ancestors = [],
         rhs = [Send (at 10 30) (MK_Self (at 10 10)) Names_prop
                  [symLit (at 15 19) ''foo'', cnst (at 21 27) ''String''],
                Send (at 32 50) (MK_Self (at 32 32)) Names_const
                  [symLit (at 38 42) ''bar'', cnst (at 44 50) ''String'']]\<rparr>
     = Inr (\<lparr>klassLoc = at 0 60, ancestors = [],
             rhs = [Send (at 10 30) (MK_Self (at 10 10)) Names_prop
                      [symLit (at 15 19) ''foo'', cnst (at 21 27) ''String''],
                    Send (at 32 50) (MK_Self (at 32 32)) Names_const
                      [symLit (at 38 42) ''bar'', cnst (at 44 50) ''String'']]\<rparr>, [])"
  using run_autogen_unchanged
          [of "example_ctx\<lparr>runningUnderAutogen := True\<rparr>"
              "\<lparr>klassLoc = at 0 60, ancestors = [],
                rhs = [Send (at 10 30) (MK_Self (at 10 10)) Names_prop
                         [symLit (at 15 19) ''foo'', cnst (at 21 27) ''String''],
                       Send (at 32 50) (MK_Self (at 32 32)) Names_const
                         [symLit (at 38 42) ''bar'', cnst (at 44 50) ''String'']]\<rparr>"]
  by simp

lemma replacement_run_stat_None:
  "run_stat ctx ts stat = Inr (None, es) \<Longrightarrow> replacement ctx ts stat = None"
  by (simp add: replacement_def)

lemma replacement_run_stat_Some:
  "run_stat ctx ts stat = Inr (Some (nodes, info), es) \<Longrightarrow> replacement ctx ts stat = Some nodes"
  by (simp add: replacement_def)

lemma run_scan_replaceNodes:
  assumes "run_scan ctx ts stats i (rn, props, errs) = Inr (rn', props', errs')"
    and "\<forall>k\<ge>i. rn k = None"
  shows "(\<forall>j<length stats. rn' (i + j) = replacement ctx ts (stats ! j))
       \<and> (\<forall>k<i. rn' k = rn k)"
  using assms
proof (induction stats arbitrary: i rn props errs)
  case Nil
  then show ?case by simp
next
  case (Cons stat stats)
  from Cons.prems(1) obtain r es where rs: "run_stat ctx ts stat = Inr (r, es)"
    by (cases "run_stat ctx ts stat") auto
  show ?case
  proof (cases r)
    case None
    with rs Cons.prems(1)
    have rec: "run_scan ctx ts stats (Suc i) (rn, props, errs @ es) = Inr (rn', props', errs')"
      by simp
    from Cons.prems(2) have inv: "\<forall>k\<ge>Suc i. rn k = None" by simp
    from Cons.IH [OF rec inv]
    have tl: "\<forall>j<length stats. rn' (Suc i + j) = replacement ctx ts (stats ! j)"
      and keep: "\<forall>k<Suc i. rn' k = rn k" by simp_all
    from keep Cons.prems(2) have "rn' i = None" by simp
    with rs None have hd: "rn' i = replacement ctx ts stat"
      by (simp add: replacement_run_stat_None)
    have "\<forall>j<length (stat # stats). rn' (i + j) = replacement ctx ts ((stat # stats) ! j)"
    proof (intro allI impI)
      fix j assume "j < length (stat # stats)"
      then show "rn' (i + j) = replacement ctx ts ((stat # stats) ! j)"
        using hd tl by (cases j) simp_all
    qed
    moreover from keep have "\<forall>k<i. rn' k = rn k" by simp
    ultimately show ?thesis by blast
  next
    case (Some np)
    obtain nodes info where np: "np = (nodes, info)" by (cases np)
    with rs Some Cons.prems(1)
    have rec: "run_scan ctx ts stats (Suc i) (rn(i \<mapsto> nodes), props @ [info], errs @ es)
                 = Inr (rn', props', errs')"
      by simp
    from Cons.prems(2) have inv: "\<forall>k\<ge>Suc i. (rn(i \<mapsto> nodes)) k = None" by simp
    from Cons.IH [OF rec inv]
    have tl: "\<forall>j<length stats. rn' (Suc i + j) = replacement ctx ts (stats ! j)"
      and keep: "\<forall>k<Suc i. rn' k = (rn(i \<mapsto> nodes)) k" by simp_all
    from keep have "rn' i = Some nodes" by simp
    with rs Some np have hd: "rn' i = replacement ctx ts stat"
      by (simp add: replacement_run_stat_Some)
    have "\<forall>j<length (stat # stats). rn' (i + j) = replacement ctx ts ((stat # stats) ! j)"
    proof (intro allI impI)
      fix j assume "j < length (stat # stats)"
      then show "rn' (i + j) = replacement ctx ts ((stat # stats) ! j)"
        using hd tl by (cases j) simp_all
    qed
    moreover from keep have "\<forall>k<i. rn' k = rn k" by simp
    ultimately show ?thesis by blast
  qed
qed

lemma run_Inr:
  assumes "\<not> runningUnderAutogen ctx" and "run ctx klass = Inr (klass', errs)"
  shows "\<exists>replaceNodes props initialize.
           run_scan ctx (list_ex isTStruct (ancestors klass)) (rhs klass) 0 (Map.empty, [], [])
             = Inr (replaceNodes, props, errs)
         \<and> (if list_ex isTStruct (ancestors klass)
              then mkTStructInitialize ctx (klassLoc klass) props else Inr []) = Inr initialize
         \<and> klass' = klass\<lparr>rhs := run_rebuild replaceNodes (rhs klass) 0 initialize\<rparr>"
  using assms
  by (auto simp add: run_def Let_def split: sum.splits prod.splits if_splits)

lemma run_keeps_statement:
  assumes "\<not> runningUnderAutogen ctx" and "run ctx klass = Inr (klass', errs)"
    and "stat \<in> set (rhs klass)"
    and "replacement ctx (list_ex isTStruct (ancestors klass)) stat = None"
  shows "stat \<in> set (rhs klass')"
proof -
  let ?ts = "list_ex isTStruct (ancestors klass)"
  from run_Inr [OF assms(1,2)] obtain rn props initialize where
    scan: "run_scan ctx ?ts (rhs klass) 0 (Map.empty, [], []) = Inr (rn, props, errs)"
    and k': "klass' = klass\<lparr>rhs := run_rebuild rn (rhs klass) 0 initialize\<rparr>"
    by blast
  from assms(3) obtain i where i: "i < length (rhs klass)" "rhs klass ! i = stat"
    by (auto simp add: in_set_conv_nth)
  from run_scan_replaceNodes [OF scan] i assms(4) have "rn i = None"
    by simp
  with i have "emitted rn (rhs klass) i = [stat]"
    by (simp add: emitted_def)
  moreover from i have "i \<in> set [0..<length (rhs klass)]"
    by simp
  ultimately have "stat \<in> set (concat (map (emitted rn (rhs klass)) [0..<length (rhs klass)]))"
    by (metis UN_I list.set_intros(1) set_concat set_map image_eqI)
  then show ?thesis
    unfolding k' by (simp add: run_rebuild_eq emitted_def [abs_def])
qed

text \<open>Claim C7. A send with four or more positional arguments is rejected, whatever its
  name: \<^verbatim>\<open>parseProp\<close> returns \<^verbatim>\<open>nullopt\<close> and opens no diagnostic, the first loop of \<^verbatim>\<open>run\<close>
  stores no replacement for the statement, and the statement is a statement of the body
  that \<^verbatim>\<open>run\<close> builds.\<close>

theorem parseProp_rejects_four_or_more_args:
  assumes "4 \<le> length args"
  shows "parseProp ctx sendLoc f args = Inr (None, [])
       \<and> run_stat ctx forTStruct (Send sendLoc recv f args) = Inr (None, [])
       \<and> replacement ctx forTStruct (Send sendLoc recv f args) = None
       \<and> (\<not> runningUnderAutogen ctx \<and> run ctx klass = Inr (klass', errs)
           \<and> Send sendLoc recv f args \<in> set (rhs klass)
           \<longrightarrow> Send sendLoc recv f args \<in> set (rhs klass'))"
proof -
  have p: "parseProp ctx sendLoc f args = Inr (None, [])"
    using assms by (simp add: parseProp_def parseProp_classify_many_args)
  then have s: "\<And>ts. run_stat ctx ts (Send sendLoc recv f args) = Inr (None, [])"
    by (simp add: run_stat_def)
  then have r: "\<And>ts. replacement ctx ts (Send sendLoc recv f args) = None"
    by (simp add: replacement_def)
  from run_keeps_statement [OF _ _ _ r]
  have "\<not> runningUnderAutogen ctx \<and> run ctx klass = Inr (klass', errs)
           \<and> Send sendLoc recv f args \<in> set (rhs klass)
           \<longrightarrow> Send sendLoc recv f args \<in> set (rhs klass')"
    by blast
  with p s r show ?thesis by blast
qed

theorem parseProp_rejects_four_or_more_args_witness:
  "4 \<le> length [symLit (at 5 9) ''foo'', cnst (at 11 17) ''String'',
                cnst (at 19 22) ''Foo'', Hash (at 24 26) [] []]
   \<and> parseProp example_ctx (at 0 26) Names_prop
        [symLit (at 5 9) ''foo'', cnst (at 11 17) ''String'',
         cnst (at 19 22) ''Foo'', Hash (at 24 26) [] []] = Inr (None, [])"
  using parseProp_rejects_four_or_more_args
          [of "[symLit (at 5 9) ''foo'', cnst (at 11 17) ''String'',
                cnst (at 19 22) ''Foo'', Hash (at 24 26) [] []]"
              example_ctx "at 0 26" Names_prop False EmptyTree]
  by simp

text \<open>Claim C3. When the pass runs, the new body is the synthesized initializer (empty unless
  the class derives from \<^verbatim>\<open>T::Struct\<close>) followed by one traversal of the old statements in
  their order: position \<open>i\<close> contributes the statement itself when \<^verbatim>\<open>replaceNodes\<close> has no
  entry for it and its stored nodes otherwise, and the stored entry of a position is the
  replacement of the statement at that position.\<close>

theorem run_rebuild_preserves_order:
  assumes "\<not> runningUnderAutogen ctx" and "run ctx klass = Inr (klass', errs)"
  shows "\<exists>replaceNodes props initialize.
           run_scan ctx (list_ex isTStruct (ancestors klass)) (rhs klass) 0 (Map.empty, [], [])
             = Inr (replaceNodes, props, errs)
         \<and> (if list_ex isTStruct (ancestors klass)
              then mkTStructInitialize ctx (klassLoc klass) props else Inr []) = Inr initialize
         \<and> (\<forall>i<length (rhs klass).
               replaceNodes i = replacement ctx (list_ex isTStruct (ancestors klass)) (rhs klass ! i))
         \<and> rhs klass' =
             initialize @ concat (map (emitted replaceNodes (rhs klass)) [0..<length (rhs klass)])"
proof -
  let ?ts = "list_ex isTStruct (ancestors klass)"
  from run_Inr [OF assms] obtain rn props initialize where
    scan: "run_scan ctx ?ts (rhs klass) 0 (Map.empty, [], []) = Inr (rn, props, errs)"
    and init: "(if ?ts then mkTStructInitialize ctx (klassLoc klass) props else Inr [])
                 = Inr initialize"
    and k': "klass' = klass\<lparr>rhs := run_rebuild rn (rhs klass) 0 initialize\<rparr>"
    by blast
  from run_scan_replaceNodes [OF scan]
  have stored: "\<forall>i<length (rhs klass). rn i = replacement ctx ?ts (rhs klass ! i)"
    by simp
  have "rhs klass' = initialize @ concat (map (emitted rn (rhs klass)) [0..<length (rhs klass)])"
    unfolding k' by (simp add: run_rebuild_eq emitted_def [abs_def])
  with scan init stored show ?thesis by blast
qed


theorem run_rebuild_preserves_order_witness:
  "\<not> runningUnderAutogen example_ctx
   \<and> run example_ctx
        \<lparr>klassLoc = at 0 100, ancestors = [],
         rhs = [OtherNode (at 1 5) 7 [],
                Send (at 10 30) (MK_Self (at 10 10)) Names_prop
                  [symLit (at 15 19) ''foo'', cnst (at 21 27) ''String''],
                OtherNode (at 40 50) 8 []]\<rparr>
     = Inr (\<lparr>klassLoc = at 0 100, ancestors = [],
             rhs = [OtherNode (at 1 5) 7 [],
                    MK_Sig (at 10 30) (MK_Hash0 (at 10 30)) (cnst (at 21 27) ''String''),
                    ASTUtil_mkGet (at 10 30) (UTF8 ''foo'') (MK_RaiseUnimplemented (at 10 30)),
                    MK_Sig (at 10 30)
                      (MK_Hash1 (at 10 30) (MK_Symbol (at 16 19) Names_arg0)
                         (cnst (at 21 27) ''String''))
                      (cnst (at 21 27) ''String''),
                    ASTUtil_mkSet (at 10 30) (UTF8 ''foo='') (at 16 19)
                      (MK_RaiseUnimplemented (at 10 30)),
                    OtherNode (at 40 50) 8 []]\<rparr>, [])
   \<and> (\<exists>replaceNodes.
         [OtherNode (at 1 5) 7 [],
          MK_Sig (at 10 30) (MK_Hash0 (at 10 30)) (cnst (at 21 27) ''String''),
          ASTUtil_mkGet (at 10 30) (UTF8 ''foo'') (MK_RaiseUnimplemented (at 10 30)),
          MK_Sig (at 10 30)
            (MK_Hash1 (at 10 30) (MK_Symbol (at 16 19) Names_arg0)
               (cnst (at 21 27) ''String''))
            (cnst (at 21 27) ''String''),
          ASTUtil_mkSet (at 10 30) (UTF8 ''foo='') (at 16 19)
            (MK_RaiseUnimplemented (at 10 30)),
          OtherNode (at 40 50) 8 []]
         = concat (map (emitted replaceNodes
                          [OtherNode (at 1 5) 7 [],
                           Send (at 10 30) (MK_Self (at 10 10)) Names_prop
                             [symLit (at 15 19) ''foo'', cnst (at 21 27) ''String''],
                           OtherNode (at 40 50) 8 []])
                     [0..<3]))"
proof -
  let ?K = "\<lparr>klassLoc = at 0 100, ancestors = [],
         rhs = [OtherNode (at 1 5) 7 [],
                Send (at 10 30) (MK_Self (at 10 10)) Names_prop
                  [symLit (at 15 19) ''foo'', cnst (at 21 27) ''String''],
                OtherNode (at 40 50) 8 []]\<rparr>"
  let ?K' = "\<lparr>klassLoc = at 0 100, ancestors = [],
             rhs = [OtherNode (at 1 5) 7 [],
                    MK_Sig (at 10 30) (MK_Hash0 (at 10 30)) (cnst (at 21 27) ''String''),
                    ASTUtil_mkGet (at 10 30) (UTF8 ''foo'') (MK_RaiseUnimplemented (at 10 30)),
                    MK_Sig (at 10 30)
                      (MK_Hash1 (at 10 30) (MK_Symbol (at 16 19) Names_arg0)
                         (cnst (at 21 27) ''String''))
                      (cnst (at 21 27) ''String''),
                    ASTUtil_mkSet (at 10 30) (UTF8 ''foo='') (at 16 19)
                      (MK_RaiseUnimplemented (at 10 30)),
                    OtherNode (at 40 50) 8 []]\<rparr>"
  have h1: "\<not> runningUnderAutogen example_ctx"
    by (simp add: example_ctx_def)
  have h2: "run example_ctx ?K = Inr (?K', [])"
    by code_simp
  have nots: "\<not> list_ex isTStruct (ancestors ?K)"
    by simp
  from run_rebuild_preserves_order [OF h1 h2] nots
  obtain replaceNodes where
    "rhs ?K' = concat (map (emitted replaceNodes (rhs ?K)) [0..<length (rhs ?K)])"
    by auto
  then have "\<exists>replaceNodes.
      rhs ?K' = concat (map (emitted replaceNodes (rhs ?K)) [0..<3])"
    by (auto simp add: numeral_3_eq_3)
  with h1 h2 show ?thesis by simp
qed


subsection \<open>The initializer\<close>

lemma mkTStructInitialize_required_eq:
  assumes "\<forall>p\<in>set props. type p \<noteq> Nullptr"
  shows "mkTStructInitialize_required props (args, sigKeys, sigVals) =
           Inr (args @ map requiredArg (requiredProps props),
                sigKeys @ map sigKey (requiredProps props),
                sigVals @ map type (requiredProps props))"
  using assms
  by (induction props arbitrary: args sigKeys sigVals)
     (simp_all add: requiredProps_def requiredArg_def sigKey_def deepCopy_def)

lemma mkTStructInitialize_optional_eq:
  assumes "\<forall>p\<in>set props. type p \<noteq> Nullptr"
  shows "mkTStructInitialize_optional props (args, sigKeys, sigVals) =
           Inr (args @ map optionalArg (optionalProps props),
                sigKeys @ map sigKey (optionalProps props),
                sigVals @ map type (optionalProps props))"
  using assms
  by (induction props arbitrary: args sigKeys sigVals)
     (simp_all add: optionalProps_def optionalArg_def sigKey_def deepCopy_def)

lemma mkTStructInitialize_stats_eq:
  "mkTStructInitialize_stats props stats = stats @ map fieldAssign props"
  by (induction props arbitrary: stats) (simp_all add: fieldAssign_def)

lemma mkTStructInitialize_eq:
  assumes "\<forall>p\<in>set props. type p \<noteq> Nullptr"
  shows "mkTStructInitialize ctx kloc props =
     Inr [MK_SigVoid kloc
            (MK_Hash kloc
               (map sigKey (requiredProps props) @ map sigKey (optionalProps props))
               (map type (requiredProps props) @ map type (optionalProps props))),
          MK_SyntheticMethod kloc kloc Names_initialize
            (map requiredArg (requiredProps props) @ map optionalArg (optionalProps props))
            (MK_InsSeq kloc (map fieldAssign props) (MK_ZSuper kloc))]"
  using assms
  by (simp add: mkTStructInitialize_def mkTStructInitialize_required_eq
        mkTStructInitialize_optional_eq mkTStructInitialize_stats_eq)

subsection \<open>The nodes of one property\<close>








subsection \<open>What \<^verbatim>\<open>parseProp\<close> leaves in the record\<close>

lemma parseProp_fun_fields:
  assumes "parseProp_fun ctx l f = Some r"
  shows "loc r = l \<and> default' r = Nullptr \<and> computedByMethodName r = noName"
  using assms
  by (auto simp add: parseProp_fun_def PropInfo_new_def Let_def split: if_splits)

lemma parseProp_name_fields:
  assumes "parseProp_name ctx args r = Inr (Some r')"
  shows "loc r' = loc r \<and> default' r' = default' r
       \<and> computedByMethodName r' = computedByMethodName r \<and> type r' = type r"
  using assms
  by (auto simp add: parseProp_name_def split: if_splits option.splits)

lemma parseProp_type_fields:
  assumes "parseProp_type ctx args r = Inr (Some r')"
  shows "loc r' = loc r \<and> default' r' = default' r
       \<and> computedByMethodName r' = computedByMethodName r \<and> name r' = name r
       \<and> type r' \<noteq> Nullptr \<and> (type r \<noteq> Nullptr \<longrightarrow> type r' = type r)"
  using assms
  by (auto simp add: parseProp_type_def Let_def split: if_splits)

lemma parseProp_classify_Some:
  assumes "parseProp_classify ctx l f args = Inr (Some (r, rules))"
  shows "loc r = l \<and> default' r = Nullptr \<and> computedByMethodName r = noName
       \<and> type r \<noteq> Nullptr \<and> rules = parseProp_rules args \<and> length args < 4"
proof -
  from assms obtain r0 r1 where
    f: "parseProp_fun ctx l f = Some r0" and len: "length args < 4"
    and n: "parseProp_name ctx args r0 = Inr (Some r1)"
    and t: "parseProp_type ctx args r1 = Inr (Some r)"
    and rules: "rules = parseProp_rules args"
    by (auto simp add: parseProp_classify_def Let_def
          split: option.splits sum.splits if_splits)
  from parseProp_fun_fields [OF f] parseProp_name_fields [OF n] parseProp_type_fields [OF t]
    len rules
  show ?thesis by simp
qed

lemma parseProp_default_fields:
  assumes "parseProp_default ctx r rules = (r', rules')"
  shows "loc r' = loc r \<and> name r' = name r \<and> type r' = type r
       \<and> computedByMethodName r' = computedByMethodName r"
  using assms
  by (auto simp add: parseProp_default_def Let_def split: if_splits prod.splits)

lemma parseProp_computedBy_fields:
  assumes "parseProp_computedBy ctx r rules = Inr (r', rules', es)"
  shows "loc r' = loc r \<and> name r' = name r \<and> type r' = type r \<and> default' r' = default' r"
  using assms
  by (auto simp add: parseProp_computedBy_def parseProp_computedBy_else_def
        split: if_splits prod.splits option.splits)

lemma parseProp_foreign_fields:
  assumes "parseProp_foreign ctx r rules = (r', rules', es)"
  shows "loc r' = loc r \<and> name r' = name r \<and> type r' = type r \<and> default' r' = default' r
       \<and> computedByMethodName r' = computedByMethodName r"
  using assms
  by (auto simp add: parseProp_foreign_def Let_def split: if_splits prod.splits)

lemma parseProp_ifunset_fields:
  "loc (parseProp_ifunset ctx r rules) = loc r
   \<and> name (parseProp_ifunset ctx r rules) = name r
   \<and> type (parseProp_ifunset ctx r rules) = type r
   \<and> default' (parseProp_ifunset ctx r rules) = default' r
   \<and> computedByMethodName (parseProp_ifunset ctx r rules) = computedByMethodName r"
  by (simp add: parseProp_ifunset_def split: prod.splits)

lemma parseProp_nilable_fields:
  "loc (parseProp_nilable r) = loc r \<and> name (parseProp_nilable r) = name r
   \<and> type (parseProp_nilable r) = type r
   \<and> computedByMethodName (parseProp_nilable r) = computedByMethodName r"
  by (simp add: parseProp_nilable_def)

lemma parseProp_options_Inr:
  assumes "parseProp_options ctx r rules = Inr (r3, errs)" and "rules \<noteq> Nullptr"
  shows "\<exists>r1 rules1 r2 rules2 es2 r2' rules3 es3.
           parseProp_default ctx r rules = (r1, rules1)
         \<and> parseProp_computedBy ctx r1 rules1 = Inr (r2, rules2, es2)
         \<and> parseProp_foreign ctx r2 rules2 = (r2', rules3, es3)
         \<and> r3 = parseProp_ifunset ctx r2' rules3 \<and> errs = es2 @ es3"
  using assms
  by (auto simp add: parseProp_options_def split: prod.splits sum.splits)

lemma parseProp_options_fields:
  assumes "parseProp_options ctx r rules = Inr (r3, errs)"
  shows "loc r3 = loc r \<and> name r3 = name r \<and> type r3 = type r"
proof (cases "rules = Nullptr")
  case True
  with assms show ?thesis by (simp add: parseProp_options_def)
next
  case False
  from parseProp_options_Inr [OF assms False] obtain r1 rules1 r2 rules2 es2 r2' rules3 es3
    where d: "parseProp_default ctx r rules = (r1, rules1)"
      and c: "parseProp_computedBy ctx r1 rules1 = Inr (r2, rules2, es2)"
      and fo: "parseProp_foreign ctx r2 rules2 = (r2', rules3, es3)"
      and r3: "r3 = parseProp_ifunset ctx r2' rules3"
    by blast
  from parseProp_default_fields [OF d] parseProp_computedBy_fields [OF c]
    parseProp_foreign_fields [OF fo] parseProp_ifunset_fields [of ctx r2' rules3] r3
  show ?thesis by simp
qed

lemma parseProp_options_default:
  assumes "parseProp_options ctx r rules = Inr (r3, errs)"
  shows "default' r3 =
           (if rules = Nullptr then default' r
            else default' (fst (parseProp_default ctx r rules)))"
proof (cases "rules = Nullptr")
  case True
  with assms show ?thesis by (simp add: parseProp_options_def)
next
  case False
  from parseProp_options_Inr [OF assms False] obtain r1 rules1 r2 rules2 es2 r2' rules3 es3
    where d: "parseProp_default ctx r rules = (r1, rules1)"
      and c: "parseProp_computedBy ctx r1 rules1 = Inr (r2, rules2, es2)"
      and fo: "parseProp_foreign ctx r2 rules2 = (r2', rules3, es3)"
      and r3: "r3 = parseProp_ifunset ctx r2' rules3"
    by blast
  from d parseProp_computedBy_fields [OF c]
    parseProp_foreign_fields [OF fo] parseProp_ifunset_fields [of ctx r2' rules3] r3 False
  show ?thesis by simp
qed

lemma parseProp_Some:
  assumes "parseProp ctx l f args = Inr (Some info, errs)"
  shows "\<exists>r rules r3. parseProp_classify ctx l f args = Inr (Some (r, rules))
           \<and> parseProp_options ctx r rules = Inr (r3, errs)
           \<and> info = parseProp_nilable r3"
  using assms
  by (auto simp add: parseProp_def split: sum.splits option.splits prod.splits)

lemma parseProp_None:
  "parseProp ctx l f args = Inr (None, errs) \<longleftrightarrow>
     errs = [] \<and> parseProp_classify ctx l f args = Inr None"
  by (auto simp add: parseProp_def split: sum.splits option.splits prod.splits)


subsection \<open>The token properties\<close>

lemma parseProp_fun_token:
  assumes "f = Names_tokenProp \<or> f = Names_timestampedTokenProp"
  shows "\<exists>r. parseProp_fun ctx l f = Some r \<and> name r = Names_token
             \<and> type r = MK_Constant l Symbols_String"
  using assms by (auto simp add: parseProp_fun_def Let_def Names)

lemma parseProp_name_exists:
  "NameRef_exists (name r) \<Longrightarrow> parseProp_name ctx args r = Inr (Some r)"
  by (simp add: parseProp_name_def)

lemma parseProp_type_given:
  "type r \<noteq> Nullptr \<Longrightarrow>
   parseProp_type ctx args r =
     (if dupType ctx (type r) = Nullptr then Inl EnforceFailed else Inr (Some r))"
  by (simp add: parseProp_type_def)

lemma parseProp_classify_token:
  assumes "f = Names_tokenProp \<or> f = Names_timestampedTokenProp"
  shows "\<exists>r. name r = Names_token \<and> type r = MK_Constant l Symbols_String
           \<and> parseProp_classify ctx l f args =
               (if 4 \<le> length args then Inr None
                else if dupType ctx (MK_Constant l Symbols_String) = Nullptr
                  then Inl EnforceFailed
                else if parseProp_rules args = Nullptr \<and> 3 \<le> length args then Inr None
                else Inr (Some (r, parseProp_rules args)))"
proof -
  from parseProp_fun_token [OF assms] obtain r where
    f: "parseProp_fun ctx l f = Some r" and n: "name r = Names_token"
    and t: "type r = MK_Constant l Symbols_String"
    by blast
  from n have ex: "NameRef_exists (name r)"
    by (simp add: NameRef_exists_def Names)
  from t have nn: "type r \<noteq> Nullptr" by simp
  have "parseProp_classify ctx l f args =
               (if 4 \<le> length args then Inr None
                else if dupType ctx (MK_Constant l Symbols_String) = Nullptr
                  then Inl EnforceFailed
                else if parseProp_rules args = Nullptr \<and> 3 \<le> length args then Inr None
                else Inr (Some (r, parseProp_rules args)))"
    by (simp add: parseProp_classify_def f parseProp_name_exists [OF ex]
          parseProp_type_given [OF nn] t Let_def)
  with n t show ?thesis by blast
qed

text \<open>Claim C6, as the code has it. For both token aliases, a record that \<^verbatim>\<open>parseProp\<close>
  returns has the name \<^verbatim>\<open>token\<close> and the type \<^verbatim>\<open>String\<close>. The arguments are not looked at
  for a name: the call is rejected exactly when it has four or more arguments, or three
  arguments the last of which is no hash.\<close>

theorem parseProp_token_aliases:
  assumes "f = Names_tokenProp \<or> f = Names_timestampedTokenProp"
  shows "(parseProp ctx sendLoc f args = Inr (Some info, errs) \<longrightarrow>
            name info = Names_token \<and> type info = MK_Constant sendLoc Symbols_String)
       \<and> (parseProp ctx sendLoc f args = Inr (None, errs) \<longleftrightarrow>
            errs = [] \<and>
            (4 \<le> length args \<or>
             dupType ctx (MK_Constant sendLoc Symbols_String) \<noteq> Nullptr
             \<and> length args = 3 \<and> parseProp_rules args = Nullptr))"
proof (rule conjI)
  show "parseProp ctx sendLoc f args = Inr (Some info, errs) \<longrightarrow>
            name info = Names_token \<and> type info = MK_Constant sendLoc Symbols_String"
  proof
    assume p: "parseProp ctx sendLoc f args = Inr (Some info, errs)"
    from parseProp_Some [OF p] obtain r rules r3 where
      c: "parseProp_classify ctx sendLoc f args = Inr (Some (r, rules))"
      and o: "parseProp_options ctx r rules = Inr (r3, errs)"
      and i: "info = parseProp_nilable r3"
      by blast
    from parseProp_classify_token [OF assms, of sendLoc ctx args] c
    have "name r = Names_token \<and> type r = MK_Constant sendLoc Symbols_String"
      by (auto split: if_splits)
    with parseProp_options_fields [OF o] parseProp_nilable_fields [of r3] i
    show "name info = Names_token \<and> type info = MK_Constant sendLoc Symbols_String"
      by simp
  qed
next
  from parseProp_classify_token [OF assms, of sendLoc ctx args]
  show "parseProp ctx sendLoc f args = Inr (None, errs) \<longleftrightarrow>
            errs = [] \<and>
            (4 \<le> length args \<or>
             dupType ctx (MK_Constant sendLoc Symbols_String) \<noteq> Nullptr
             \<and> length args = 3 \<and> parseProp_rules args = Nullptr)"
    unfolding parseProp_None by (auto split: if_splits)
qed

theorem parseProp_token_aliases_witness:
  "(Names_timestampedTokenProp = Names_tokenProp
    \<or> Names_timestampedTokenProp = Names_timestampedTokenProp)
   \<and> parseProp example_ctx (at 0 22) Names_timestampedTokenProp [] =
       Inr (Some ((example_info (at 0 22) ''token'' (at 12 17)
                     (MK_Constant (at 0 22) Symbols_String) Nullptr)), [])
   \<and> name (example_info (at 0 22) ''token'' (at 12 17)
              (MK_Constant (at 0 22) Symbols_String) Nullptr) = Names_token
   \<and> type (example_info (at 0 22) ''token'' (at 12 17)
              (MK_Constant (at 0 22) Symbols_String) Nullptr)
       = MK_Constant (at 0 22) Symbols_String"
proof -
  let ?I = "example_info (at 0 22) ''token'' (at 12 17)
              (MK_Constant (at 0 22) Symbols_String) Nullptr"
  have h: "Names_timestampedTokenProp = Names_tokenProp
           \<or> Names_timestampedTokenProp = Names_timestampedTokenProp"
    by simp
  have p: "parseProp example_ctx (at 0 22) Names_timestampedTokenProp [] = Inr (Some ?I, [])"
    by code_simp
  from parseProp_token_aliases [OF h, of example_ctx "at 0 22" "[]" ?I "[]"] p
  have "name ?I = Names_token \<and> type ?I = MK_Constant (at 0 22) Symbols_String"
    by blast
  with h p show ?thesis by blast
qed

text \<open>Claim C6 as it was stated asks that a token call with a name argument be rejected.
  The call \<^verbatim>\<open>token_prop :foo\<close> supplies one and is accepted: the record has the name
  \<^verbatim>\<open>token\<close>.\<close>

theorem token_prop_with_name_argument_counterexample:
  "parseProp example_ctx (at 0 15) Names_tokenProp [symLit (at 11 15) ''foo''] =
     Inr (Some (example_info (at 0 15) ''token'' (at 0 10)
                  (MK_Constant (at 0 15) Symbols_String) Nullptr), [])"
  by code_simp


subsection \<open>Defaults\<close>

lemma parseProp_default_factory:
  assumes "hasTruthyHashValue ctx rules Names_factory"
  shows "default' (fst (parseProp_default ctx r rules)) = MK_RaiseUnimplemented (loc r)
       \<and> snd (parseProp_default ctx r rules) = rules"
  using assms by (simp add: parseProp_default_def Let_def)

lemma parseProp_default_none:
  assumes "\<not> hasTruthyHashValue ctx rules Names_factory"
    and "\<not> hasHashValue ctx rules Names_default"
  shows "default' (fst (parseProp_default ctx r rules)) = default' r"
  using assms by (simp add: parseProp_default_def Let_def)

lemma isTNilable_not_Nullptr: "isTNilable e \<Longrightarrow> e \<noteq> Nullptr"
  by (auto simp add: isTNilable_def cast_Send_def)

lemma requiredProps_append:
  "requiredProps (xs @ ys) = requiredProps xs @ requiredProps ys"
  by (simp add: requiredProps_def)

lemma optionalProps_append:
  "optionalProps (xs @ ys) = optionalProps xs @ optionalProps ys"
  by (simp add: optionalProps_def)

text \<open>Claim C10. When the rules hash has a truthy \<^verbatim>\<open>factory\<close>, the default of the record
  is the unimplemented-raise at the location of the send, whether or not the hash has a
  \<^verbatim>\<open>default\<close> key: the \<^verbatim>\<open>default\<close> branch is not taken, so its entry is neither read nor
  taken out of the hash.\<close>

theorem factory_takes_precedence_over_default:
  assumes "parseProp ctx sendLoc f args = Inr (Some info, errs)"
    and "parseProp_rules args \<noteq> Nullptr"
    and "hasTruthyHashValue ctx (parseProp_rules args) Names_factory"
    and "hasHashValue ctx (parseProp_rules args) Names_default"
  shows "default' info = MK_RaiseUnimplemented sendLoc
       \<and> snd (parseProp_default ctx ret (parseProp_rules args)) = parseProp_rules args"
proof -
  from parseProp_Some [OF assms(1)] obtain r rules r3 where
    c: "parseProp_classify ctx sendLoc f args = Inr (Some (r, rules))"
    and o: "parseProp_options ctx r rules = Inr (r3, errs)"
    and i: "info = parseProp_nilable r3"
    by blast
  from parseProp_classify_Some [OF c]
  have r: "loc r = sendLoc" "rules = parseProp_rules args"
    by simp_all
  from parseProp_options_default [OF o] assms(2) r
    parseProp_default_factory [OF assms(3), of r]
  have "default' r3 = MK_RaiseUnimplemented sendLoc"
    by simp
  with i have "default' info = MK_RaiseUnimplemented sendLoc"
    by (simp add: parseProp_nilable_def)
  with parseProp_default_factory [OF assms(3), of ret] show ?thesis
    by simp
qed


theorem factory_takes_precedence_over_default_witness:
  "parseProp example_ctx (at 10 70) Names_prop
     [symLit (at 15 19) ''foo'', cnst (at 21 27) ''String'',
      Hash (at 29 70) [symLit (at 29 36) ''factory'', symLit (at 50 57) ''default'']
        [OtherNode (at 38 48) 0 [cnst (at 43 46) ''Foo''], Literal (at 59 60) (IntegerValue 1)]]
     = Inr (Some (example_info (at 10 70) ''foo'' (at 16 19) (cnst (at 21 27) ''String'')
                    (MK_RaiseUnimplemented (at 10 70))), [])
   \<and> hasTruthyHashValue example_ctx
        (Hash (at 29 70) [symLit (at 29 36) ''factory'', symLit (at 50 57) ''default'']
           [OtherNode (at 38 48) 0 [cnst (at 43 46) ''Foo''],
            Literal (at 59 60) (IntegerValue 1)])
        Names_factory
   \<and> hasHashValue example_ctx
        (Hash (at 29 70) [symLit (at 29 36) ''factory'', symLit (at 50 57) ''default'']
           [OtherNode (at 38 48) 0 [cnst (at 43 46) ''Foo''],
            Literal (at 59 60) (IntegerValue 1)])
        Names_default
   \<and> default' (example_info (at 10 70) ''foo'' (at 16 19) (cnst (at 21 27) ''String'')
                 (MK_RaiseUnimplemented (at 10 70)))
       = MK_RaiseUnimplemented (at 10 70)"
proof -
  let ?h = "Hash (at 29 70) [symLit (at 29 36) ''factory'', symLit (at 50 57) ''default'']
        [OtherNode (at 38 48) 0 [cnst (at 43 46) ''Foo''], Literal (at 59 60) (IntegerValue 1)]"
  let ?args = "[symLit (at 15 19) ''foo'', cnst (at 21 27) ''String'', ?h]"
  let ?I = "example_info (at 10 70) ''foo'' (at 16 19) (cnst (at 21 27) ''String'')
              (MK_RaiseUnimplemented (at 10 70))"
  have h1: "parseProp example_ctx (at 10 70) Names_prop ?args = Inr (Some ?I, [])"
    by code_simp
  have rules: "parseProp_rules ?args = ?h"
    by code_simp
  then have h2: "parseProp_rules ?args \<noteq> Nullptr"
    by simp
  have f: "hasTruthyHashValue example_ctx ?h Names_factory"
    by code_simp
  have d: "hasHashValue example_ctx ?h Names_default"
    by code_simp
  from f d rules
  have h3: "hasTruthyHashValue example_ctx (parseProp_rules ?args) Names_factory"
    and h4: "hasHashValue example_ctx (parseProp_rules ?args) Names_default"
    by simp_all
  from factory_takes_precedence_over_default [OF h1 h2 h3 h4]
  have "default' ?I = MK_RaiseUnimplemented (at 10 70)"
    by blast
  with h1 f d show ?thesis by simp
qed

subsection \<open>\<^verbatim>\<open>computed_by\<close>\<close>

lemma parseProp_computedBy_not_symbol:
  assumes "hasTruthyHashValue ctx rules Names_computedBy"
    and "extractHashValue ctx rules Names_computedBy = ((key, val), rules')"
    and "val \<noteq> Nullptr" and "\<not> isSymbolLiteral val"
  shows "parseProp_computedBy ctx r rules =
           Inr (r, rules',
                [beginError ctx (Expression_loc ctx val) ComputedBySymbol
                   computedBy_header None])"
  using assms
  by (auto simp add: parseProp_computedBy_def parseProp_computedBy_else_def
        isSymbolLiteral_def split: option.splits)

lemma parseProp_computedBy_not_truthy:
  assumes "\<not> hasTruthyHashValue ctx rules Names_computedBy"
  shows "parseProp_computedBy ctx r rules = Inr (r, rules, [])"
  using assms by (simp add: parseProp_computedBy_def)

text \<open>Claim C8, as the code has it. Let the classifier accept the send with a rules hash,
  and let the hash, as it is after the \<^verbatim>\<open>default\<close> step, hold a truthy \<^verbatim>\<open>computed_by\<close>
  whose value is not null and not a symbol literal. Then \<^verbatim>\<open>parseProp\<close> still returns a
  record, its \<^verbatim>\<open>computedByMethodName\<close> is unset, and the diagnostic \<^verbatim>\<open>ComputedBySymbol\<close> is
  opened at the location of the value.\<close>

theorem computedBy_not_symbol_diagnostic:
  assumes "parseProp_classify ctx sendLoc f args = Inr (Some (ret, rules))"
    and "rules \<noteq> Nullptr"
    and "hasTruthyHashValue ctx (snd (parseProp_default ctx ret rules)) Names_computedBy"
    and "extractHashValue ctx (snd (parseProp_default ctx ret rules)) Names_computedBy
           = ((key, val), rules')"
    and "val \<noteq> Nullptr" and "\<not> isSymbolLiteral val"
  shows "\<exists>info errs.
           parseProp ctx sendLoc f args = Inr (Some info, errs)
         \<and> computedByMethodName info = noName
         \<and> beginError ctx (Expression_loc ctx val) ComputedBySymbol computedBy_header None
             \<in> set errs"
proof -
  obtain r1 rules1 where d: "parseProp_default ctx ret rules = (r1, rules1)"
    by (cases "parseProp_default ctx ret rules")
  let ?e = "beginError ctx (Expression_loc ctx val) ComputedBySymbol computedBy_header None"
  from assms(3,4) d have t: "hasTruthyHashValue ctx rules1 Names_computedBy"
    and x: "extractHashValue ctx rules1 Names_computedBy = ((key, val), rules')"
    by simp_all
  have c: "parseProp_computedBy ctx r1 rules1 = Inr (r1, rules', [?e])"
    by (rule parseProp_computedBy_not_symbol [OF t x assms(5,6)])
  obtain r2 rules3 es3 where fo: "parseProp_foreign ctx r1 rules' = (r2, rules3, es3)"
    by (cases "parseProp_foreign ctx r1 rules'") auto
  let ?r3 = "parseProp_ifunset ctx r2 rules3"
  have o: "parseProp_options ctx ret rules = Inr (?r3, [?e] @ es3)"
    using assms(2) d c fo by (simp add: parseProp_options_def)
  with assms(1)
  have p: "parseProp ctx sendLoc f args = Inr (Some (parseProp_nilable ?r3), [?e] @ es3)"
    by (simp add: parseProp_def)
  from parseProp_classify_Some [OF assms(1)] parseProp_default_fields [OF d]
    parseProp_foreign_fields [OF fo] parseProp_ifunset_fields [of ctx r2 rules3]
    parseProp_nilable_fields [of ?r3]
  have "computedByMethodName (parseProp_nilable ?r3) = noName"
    by simp
  with p show ?thesis by auto
qed


theorem computedBy_not_symbol_diagnostic_witness:
  "parseProp_classify example_ctx (at 10 50) Names_prop
     [symLit (at 15 19) ''foo'', cnst (at 21 27) ''String'',
      Hash (at 29 50) [symLit (at 29 40) ''computed_by''] [Literal (at 42 43) (IntegerValue 3)]]
     = Inr (Some (example_info (at 10 50) ''foo'' (at 16 19) (cnst (at 21 27) ''String'') Nullptr,
                  Hash (at 29 50) [symLit (at 29 40) ''computed_by'']
                    [Literal (at 42 43) (IntegerValue 3)]))
   \<and> hasTruthyHashValue example_ctx
        (Hash (at 29 50) [symLit (at 29 40) ''computed_by'']
           [Literal (at 42 43) (IntegerValue 3)])
        Names_computedBy
   \<and> \<not> isSymbolLiteral (Literal (at 42 43) (IntegerValue 3))
   \<and> (\<exists>info errs.
         parseProp example_ctx (at 10 50) Names_prop
           [symLit (at 15 19) ''foo'', cnst (at 21 27) ''String'',
            Hash (at 29 50) [symLit (at 29 40) ''computed_by'']
              [Literal (at 42 43) (IntegerValue 3)]]
           = Inr (Some info, errs)
         \<and> computedByMethodName info = noName
         \<and> Diagnostic (at 42 43) ComputedBySymbol (Some (computedBy_header, None)) \<in> set errs)"
proof -
  let ?v = "Literal (at 42 43) (IntegerValue 3)"
  let ?k = "symLit (at 29 40) ''computed_by''"
  let ?h = "Hash (at 29 50) [?k] [?v]"
  let ?args = "[symLit (at 15 19) ''foo'', cnst (at 21 27) ''String'', ?h]"
  let ?R = "example_info (at 10 50) ''foo'' (at 16 19) (cnst (at 21 27) ''String'') Nullptr"
  have h1: "parseProp_classify example_ctx (at 10 50) Names_prop ?args = Inr (Some (?R, ?h))"
    by code_simp
  have h2: "?h \<noteq> Nullptr"
    by simp
  have d: "snd (parseProp_default example_ctx ?R ?h) = ?h"
    by code_simp
  have t: "hasTruthyHashValue example_ctx ?h Names_computedBy"
    by code_simp
  with d have h3:
    "hasTruthyHashValue example_ctx (snd (parseProp_default example_ctx ?R ?h)) Names_computedBy"
    by simp
  have "extractHashValue example_ctx ?h Names_computedBy = ((?k, ?v), Hash (at 29 50) [] [])"
    by code_simp
  with d have h4:
    "extractHashValue example_ctx (snd (parseProp_default example_ctx ?R ?h)) Names_computedBy
       = ((?k, ?v), Hash (at 29 50) [] [])"
    by simp
  have h5: "?v \<noteq> Nullptr"
    by simp
  have h6: "\<not> isSymbolLiteral ?v"
    by code_simp
  have e: "beginError example_ctx (Expression_loc example_ctx ?v) ComputedBySymbol
             computedBy_header None
           = Diagnostic (at 42 43) ComputedBySymbol (Some (computedBy_header, None))"
    by (simp add: beginError_def example_ctx_def)
  from computedBy_not_symbol_diagnostic [OF h1 h2 h3 h4 h5 h6]
  have "\<exists>info errs.
         parseProp example_ctx (at 10 50) Names_prop ?args = Inr (Some info, errs)
         \<and> computedByMethodName info = noName
         \<and> Diagnostic (at 42 43) ComputedBySymbol (Some (computedBy_header, None)) \<in> set errs"
    unfolding e .
  with h1 t h6 show ?thesis by blast
qed

text \<open>Claim C8 as it was stated asks for a diagnostic whenever the value of
  \<^verbatim>\<open>computed_by\<close> is no symbol literal. The declaration
  \<^verbatim>\<open>prop :foo, String, computed_by: nil\<close> has such a value, which is not truthy: it is
  recognised and no diagnostic is opened.\<close>

theorem computedBy_nil_no_diagnostic_counterexample:
  "parseProp example_ctx (at 10 50) Names_prop
     [symLit (at 15 19) ''foo'', cnst (at 21 27) ''String'',
      Hash (at 29 50) [symLit (at 29 40) ''computed_by''] [Literal (at 42 45) NilValue]]
   = Inr (Some (example_info (at 10 50) ''foo'' (at 16 19) (cnst (at 21 27) ''String'') Nullptr),
          [])"
  by code_simp


subsection \<open>When \<^verbatim>\<open>run\<close> returns\<close>

text \<open>The \<^verbatim>\<open>ENFORCE\<close> of \<^verbatim>\<open>run\<close> never fails, the records that reach the initializer have a
  type, and so \<^verbatim>\<open>run\<close> returns whenever \<^verbatim>\<open>parseProp\<close> returns on every send of the body.\<close>

lemma processProp_not_empty: "processProp ctx ret forTStruct \<noteq> []"
  by (simp add: processProp_def processProp_getter_def Let_def)

lemma parseProp_type_not_null:
  assumes "parseProp ctx l f args = Inr (Some info, errs)"
  shows "type info \<noteq> Nullptr"
proof -
  from parseProp_Some [OF assms] obtain r rules r3 where
    c: "parseProp_classify ctx l f args = Inr (Some (r, rules))"
    and o: "parseProp_options ctx r rules = Inr (r3, errs)"
    and i: "info = parseProp_nilable r3"
    by blast
  from parseProp_classify_Some [OF c] parseProp_options_fields [OF o]
    parseProp_nilable_fields [of r3] i
  show ?thesis by simp
qed

lemma run_stat_Some:
  assumes "run_stat ctx ts stat = Inr (Some (nodes, info), es)"
  shows "type info \<noteq> Nullptr \<and> nodes = processProp ctx info ts"
proof -
  from assms obtain l r f as where
    p: "parseProp ctx l f as = Inr (Some info, es)" and n: "nodes = processProp ctx info ts"
    by (auto simp add: run_stat_def Let_def
          split: option.splits sum.splits prod.splits if_splits)
  from parseProp_type_not_null [OF p] n show ?thesis by simp
qed

lemma run_scan_props_typed:
  assumes "run_scan ctx ts stats i (rn, props, errs) = Inr (rn', props', errs')"
    and "\<forall>p\<in>set props. type p \<noteq> Nullptr"
  shows "\<forall>p\<in>set props'. type p \<noteq> Nullptr"
  using assms
proof (induction stats arbitrary: i rn props errs)
  case Nil
  then show ?case by simp
next
  case (Cons stat stats)
  from Cons.prems(1) obtain r es where rs: "run_stat ctx ts stat = Inr (r, es)"
    by (cases "run_stat ctx ts stat") auto
  show ?case
  proof (cases r)
    case None
    with rs Cons.prems(1)
    have "run_scan ctx ts stats (Suc i) (rn, props, errs @ es) = Inr (rn', props', errs')"
      by simp
    from Cons.IH [OF this Cons.prems(2)] show ?thesis .
  next
    case (Some np)
    obtain nodes info where np: "np = (nodes, info)" by (cases np)
    with rs Some Cons.prems(1)
    have rec: "run_scan ctx ts stats (Suc i) (rn(i \<mapsto> nodes), props @ [info], errs @ es)
                 = Inr (rn', props', errs')"
      by simp
    from rs Some np have "type info \<noteq> Nullptr"
      using run_stat_Some by blast
    with Cons.prems(2) have "\<forall>p\<in>set (props @ [info]). type p \<noteq> Nullptr"
      by simp
    from Cons.IH [OF rec this] show ?thesis .
  qed
qed

lemma run_scan_returns:
  assumes "\<forall>stat\<in>set stats. \<exists>x. run_stat ctx ts stat = Inr x"
  shows "\<exists>y. run_scan ctx ts stats i (rn, props, errs) = Inr y"
  using assms
proof (induction stats arbitrary: i rn props errs)
  case Nil
  then show ?case by simp
next
  case (Cons stat stats)
  then obtain r es where rs: "run_stat ctx ts stat = Inr (r, es)"
    by fastforce
  from Cons.prems have tl: "\<forall>stat\<in>set stats. \<exists>x. run_stat ctx ts stat = Inr x"
    by simp
  show ?case
  proof (cases r)
    case None
    with rs Cons.IH [OF tl, of "Suc i" rn props "errs @ es"] show ?thesis by simp
  next
    case (Some np)
    obtain nodes info where np: "np = (nodes, info)" by (cases np)
    from Cons.IH [OF tl, of "Suc i" "rn(i \<mapsto> nodes)" "props @ [info]" "errs @ es"]
    obtain y where
      "run_scan ctx ts stats (Suc i) (rn(i \<mapsto> nodes), props @ [info], errs @ es) = Inr y"
      by blast
    with rs Some np show ?thesis by simp (metis prod_cases3)
  qed
qed

lemma run_returns:
  assumes "\<forall>stat\<in>set (rhs klass).
             \<exists>x. run_stat ctx (list_ex isTStruct (ancestors klass)) stat = Inr x"
  shows "\<exists>klass' errs. run ctx klass = Inr (klass', errs)"
proof (cases "runningUnderAutogen ctx")
  case True
  then show ?thesis by (simp add: run_def)
next
  case False
  let ?ts = "list_ex isTStruct (ancestors klass)"
  from run_scan_returns [OF assms, of 0 Map.empty "[]" "[]"]
  obtain rn props errs where
    scan: "run_scan ctx ?ts (rhs klass) 0 (Map.empty, [], []) = Inr (rn, props, errs)"
    by (metis prod_cases3)
  from run_scan_props_typed [OF scan] have "\<forall>p\<in>set props. type p \<noteq> Nullptr"
    by simp
  from mkTStructInitialize_eq [OF this, of ctx "klassLoc klass"] scan False
  show ?thesis by (simp add: run_def Let_def)
qed

subsection \<open>The records that reach the initializer\<close>

lemma recordOf_run_stat_None:
  "run_stat ctx ts stat = Inr (None, es) \<Longrightarrow> recordOf ctx stat = None"
  by (auto simp add: run_stat_def recordOf_def Let_def
        split: option.splits sum.splits prod.splits if_splits)

lemma recordOf_run_stat_Some:
  "run_stat ctx ts stat = Inr (Some (nodes, info), es) \<Longrightarrow> recordOf ctx stat = Some info"
  by (auto simp add: run_stat_def recordOf_def Let_def
        split: option.splits sum.splits prod.splits if_splits)

lemma recordOf_Send:
  "parseProp ctx l f args = Inr (Some info, es) \<Longrightarrow> recordOf ctx (Send l r f args) = Some info"
  by (simp add: recordOf_def)

lemma recordOf_type:
  "recordOf ctx stat = Some info \<Longrightarrow> type info \<noteq> Nullptr"
  by (auto simp add: recordOf_def dest: parseProp_type_not_null
        split: option.splits sum.splits prod.splits)

lemma recordsOf_Cons:
  "recordsOf ctx (stat # stats) =
     (case recordOf ctx stat of None \<Rightarrow> [] | Some info \<Rightarrow> [info]) @ recordsOf ctx stats"
  by (simp add: recordsOf_def)

lemma recordsOf_append:
  "recordsOf ctx (xs @ ys) = recordsOf ctx xs @ recordsOf ctx ys"
  by (simp add: recordsOf_def)

lemma recordsOf_typed: "\<forall>p\<in>set (recordsOf ctx stats). type p \<noteq> Nullptr"
proof
  fix p assume "p \<in> set (recordsOf ctx stats)"
  then obtain stat where "recordOf ctx stat = Some p"
    by (auto simp add: recordsOf_def split: option.splits)
  then show "type p \<noteq> Nullptr" by (rule recordOf_type)
qed

lemma run_scan_props:
  assumes "run_scan ctx ts stats i (rn, props, errs) = Inr (rn', props', errs')"
  shows "props' = props @ recordsOf ctx stats"
  using assms
proof (induction stats arbitrary: i rn props errs)
  case Nil
  then show ?case by (simp add: recordsOf_def)
next
  case (Cons stat stats)
  from Cons.prems obtain r es where rs: "run_stat ctx ts stat = Inr (r, es)"
    by (cases "run_stat ctx ts stat") auto
  show ?case
  proof (cases r)
    case None
    with rs Cons.prems
    have "run_scan ctx ts stats (Suc i) (rn, props, errs @ es) = Inr (rn', props', errs')"
      by simp
    from Cons.IH [OF this] rs None show ?thesis
      by (simp add: recordsOf_Cons recordOf_run_stat_None)
  next
    case (Some np)
    obtain nodes info where np: "np = (nodes, info)" by (cases np)
    with rs Some Cons.prems
    have "run_scan ctx ts stats (Suc i) (rn(i \<mapsto> nodes), props @ [info], errs @ es)
                 = Inr (rn', props', errs')"
      by simp
    from Cons.IH [OF this] rs Some np show ?thesis
      by (simp add: recordsOf_Cons recordOf_run_stat_Some)
  qed
qed

lemma run_struct_initializer:
  assumes "\<not> runningUnderAutogen ctx" and "list_ex isTStruct (ancestors klass)"
    and "run ctx klass = Inr (klass', errs)"
  shows "\<exists>rest. rhs klass' =
     MK_SigVoid (klassLoc klass)
       (MK_Hash (klassLoc klass)
          (map sigKey (requiredProps (recordsOf ctx (rhs klass)))
           @ map sigKey (optionalProps (recordsOf ctx (rhs klass))))
          (map type (requiredProps (recordsOf ctx (rhs klass)))
           @ map type (optionalProps (recordsOf ctx (rhs klass)))))
     # MK_SyntheticMethod (klassLoc klass) (klassLoc klass) Names_initialize
         (map requiredArg (requiredProps (recordsOf ctx (rhs klass)))
          @ map optionalArg (optionalProps (recordsOf ctx (rhs klass))))
         (MK_InsSeq (klassLoc klass) (map fieldAssign (recordsOf ctx (rhs klass)))
            (MK_ZSuper (klassLoc klass)))
     # rest"
proof -
  from run_Inr [OF assms(1,3)] assms(2) obtain rn props initialize where
    scan: "run_scan ctx True (rhs klass) 0 (Map.empty, [], []) = Inr (rn, props, errs)"
    and init: "mkTStructInitialize ctx (klassLoc klass) props = Inr initialize"
    and k': "klass' = klass\<lparr>rhs := run_rebuild rn (rhs klass) 0 initialize\<rparr>"
    by auto
  from run_scan_props [OF scan] have props: "props = recordsOf ctx (rhs klass)"
    by simp
  from mkTStructInitialize_eq [OF recordsOf_typed, of ctx "klassLoc klass" ctx "rhs klass"]
    init props
  have "initialize =
     [MK_SigVoid (klassLoc klass)
       (MK_Hash (klassLoc klass)
          (map sigKey (requiredProps (recordsOf ctx (rhs klass)))
           @ map sigKey (optionalProps (recordsOf ctx (rhs klass))))
          (map type (requiredProps (recordsOf ctx (rhs klass)))
           @ map type (optionalProps (recordsOf ctx (rhs klass))))),
      MK_SyntheticMethod (klassLoc klass) (klassLoc klass) Names_initialize
         (map requiredArg (requiredProps (recordsOf ctx (rhs klass)))
          @ map optionalArg (optionalProps (recordsOf ctx (rhs klass))))
         (MK_InsSeq (klassLoc klass) (map fieldAssign (recordsOf ctx (rhs klass)))
            (MK_ZSuper (klassLoc klass)))]"
    by simp
  then show ?thesis
    unfolding k' by (simp add: run_rebuild_eq)
qed

lemma run_emits_replacement:
  assumes "\<not> runningUnderAutogen ctx" and "run ctx klass = Inr (klass', errs)"
    and "stat \<in> set (rhs klass)"
    and "replacement ctx (list_ex isTStruct (ancestors klass)) stat = Some nodes"
  shows "set nodes \<subseteq> set (rhs klass')"
proof -
  let ?ts = "list_ex isTStruct (ancestors klass)"
  from run_Inr [OF assms(1,2)] obtain rn props initialize where
    scan: "run_scan ctx ?ts (rhs klass) 0 (Map.empty, [], []) = Inr (rn, props, errs)"
    and k': "klass' = klass\<lparr>rhs := run_rebuild rn (rhs klass) 0 initialize\<rparr>"
    by blast
  from assms(3) obtain i where i: "i < length (rhs klass)" "rhs klass ! i = stat"
    by (auto simp add: in_set_conv_nth)
  from run_scan_replaceNodes [OF scan] i assms(4) have "rn i = Some nodes"
    by simp
  then have "emitted rn (rhs klass) i = nodes"
    by (simp add: emitted_def)
  moreover from i have "i \<in> set [0..<length (rhs klass)]"
    by simp
  ultimately have
    "set nodes \<subseteq> set (concat (map (emitted rn (rhs klass)) [0..<length (rhs klass)]))"
    by (metis UN_I set_concat set_map image_eqI subsetI)
  then show ?thesis
    unfolding k' by (auto simp add: run_rebuild_eq emitted_def [abs_def])
qed

subsection \<open>What the record says of the declaration\<close>

lemma parseProp_fun_declared:
  assumes "parseProp_fun ctx l f = Some r"
  shows "ifunset r = Nullptr \<and> computedByMethodNameLoc r = LocOffsets_none ctx
       \<and> (isImmutable r \<longleftrightarrow> f = Names_const \<or> f = Names_merchantProp)"
  using assms
  by (auto simp add: parseProp_fun_def PropInfo_new_def Let_def Names split: if_splits)

lemma parseProp_name_declared:
  assumes "parseProp_name ctx args r = Inr (Some r')"
  shows "ifunset r' = ifunset r \<and> computedByMethodNameLoc r' = computedByMethodNameLoc r
       \<and> isImmutable r' = isImmutable r"
  using assms
  by (auto simp add: parseProp_name_def split: if_splits option.splits)

lemma parseProp_type_declared:
  assumes "parseProp_type ctx args r = Inr (Some r')"
  shows "ifunset r' = ifunset r \<and> computedByMethodNameLoc r' = computedByMethodNameLoc r
       \<and> isImmutable r' = isImmutable r"
  using assms
  by (auto simp add: parseProp_type_def Let_def split: if_splits)

lemma parseProp_classify_declared:
  assumes "parseProp_classify ctx l f args = Inr (Some (r, rules))"
  shows "ifunset r = Nullptr \<and> computedByMethodNameLoc r = LocOffsets_none ctx
       \<and> (isImmutable r \<longleftrightarrow> f = Names_const \<or> f = Names_merchantProp)"
proof -
  from assms obtain r0 r1 where
    f: "parseProp_fun ctx l f = Some r0"
    and n: "parseProp_name ctx args r0 = Inr (Some r1)"
    and t: "parseProp_type ctx args r1 = Inr (Some r)"
    by (auto simp add: parseProp_classify_def Let_def
          split: option.splits sum.splits if_splits)
  from parseProp_fun_declared [OF f] parseProp_name_declared [OF n]
    parseProp_type_declared [OF t]
  show ?thesis by simp
qed

lemma parseProp_default_declared:
  assumes "parseProp_default ctx r rules = (r', rules')"
  shows "ifunset r' = ifunset r \<and> computedByMethodNameLoc r' = computedByMethodNameLoc r
       \<and> (isImmutable r' \<longleftrightarrow> isImmutable r \<or> hasTruthyHashValue ctx rules Names_immutable)
       \<and> rules' = rulesAfterDefault ctx rules"
  using assms
  by (auto simp add: parseProp_default_def rulesAfterDefault_def Let_def
        split: if_splits prod.splits)

lemma parseProp_computedBy_declared:
  assumes "parseProp_computedBy ctx r rules = Inr (r', rules', es)"
    and "computedByMethodName r = noName"
  shows "ifunset r' = ifunset r \<and> isImmutable r' = isImmutable r
       \<and> rules' = rulesAfterComputedBy ctx rules
       \<and> (if hasTruthyHashValue ctx rules Names_computedBy then
            (case cast_Literal (snd (fst (extractHashValue ctx rules Names_computedBy))) of
               None \<Rightarrow> computedByMethodName r' = noName
             | Some (litLoc, v) \<Rightarrow>
                 if isSymbol v
                 then computedByMethodName r' = asSymbol v
                      \<and> computedByMethodNameLoc r' = litLoc
                 else computedByMethodName r' = noName)
          else computedByMethodName r' = noName)"
  using assms
  by (auto simp add: parseProp_computedBy_def parseProp_computedBy_else_def
        rulesAfterComputedBy_def
        split: if_splits prod.splits option.splits)

lemma parseProp_foreign_declared:
  assumes "parseProp_foreign ctx r rules = (r', rules', es)"
  shows "ifunset r' = ifunset r \<and> isImmutable r' = isImmutable r
       \<and> computedByMethodNameLoc r' = computedByMethodNameLoc r
       \<and> rules' = rulesAfterForeign ctx rules"
  using assms
  by (auto simp add: parseProp_foreign_def rulesAfterForeign_def Let_def
        split: if_splits prod.splits)

lemma parseProp_ifunset_declared:
  assumes "ifunset r = Nullptr"
  shows "ifunset (parseProp_ifunset ctx r rules)
           = snd (fst (extractHashValue ctx rules Names_ifunset))
       \<and> isImmutable (parseProp_ifunset ctx r rules) = isImmutable r
       \<and> computedByMethodNameLoc (parseProp_ifunset ctx r rules) = computedByMethodNameLoc r"
  using assms by (simp add: parseProp_ifunset_def split: prod.splits)

lemma parseProp_nilable_declared:
  "ifunset (parseProp_nilable r) = ifunset r
   \<and> isImmutable (parseProp_nilable r) = isImmutable r
   \<and> computedByMethodNameLoc (parseProp_nilable r) = computedByMethodNameLoc r"
  by (simp add: parseProp_nilable_def)

text \<open>The record of a recognised declaration holds what the declaration says: its
  if-unset value, its computed-by method with the location of the symbol, and whether it
  is immutable.\<close>

lemma parseProp_declared:
  assumes "parseProp ctx l f args = Inr (Some info, errs)"
  shows "ifunset info = declaredIfunset ctx args
       \<and> (isImmutable info \<longleftrightarrow> declaredImmutable ctx f args)
       \<and> (case declaredComputedBy ctx args of
            None \<Rightarrow> \<not> NameRef_exists (computedByMethodName info)
          | Some (mLoc, m) \<Rightarrow>
              NameRef_exists (computedByMethodName info)
              \<and> computedByMethodName info = m \<and> computedByMethodNameLoc info = mLoc)"
proof -
  from parseProp_Some [OF assms] obtain r rules r3 where
    c: "parseProp_classify ctx l f args = Inr (Some (r, rules))"
    and o: "parseProp_options ctx r rules = Inr (r3, errs)"
    and i: "info = parseProp_nilable r3"
    by blast
  from parseProp_classify_Some [OF c] parseProp_classify_declared [OF c]
  have r: "rules = parseProp_rules args" "computedByMethodName r = noName"
    "ifunset r = Nullptr" "isImmutable r \<longleftrightarrow> f = Names_const \<or> f = Names_merchantProp"
    by simp_all
  show ?thesis
  proof (cases "rules = Nullptr")
    case True
    with o have "r3 = r" by (simp add: parseProp_options_def)
    with i r True parseProp_nilable_declared [of r] parseProp_nilable_fields [of r]
    show ?thesis
      by (simp add: declaredIfunset_def declaredImmutable_def declaredComputedBy_def
            NameRef_exists_def)
  next
    case False
    from parseProp_options_Inr [OF o False] obtain r1 rules1 r2 rules2 es2 r2' rules3 es3
      where d: "parseProp_default ctx r rules = (r1, rules1)"
        and cb: "parseProp_computedBy ctx r1 rules1 = Inr (r2, rules2, es2)"
        and fo: "parseProp_foreign ctx r2 rules2 = (r2', rules3, es3)"
        and r3: "r3 = parseProp_ifunset ctx r2' rules3"
      by blast
    note D = parseProp_default_declared [OF d] parseProp_default_fields [OF d]
    from D r have n1: "computedByMethodName r1 = noName" by simp
    note C = parseProp_computedBy_declared [OF cb n1]
    note F = parseProp_foreign_declared [OF fo] parseProp_foreign_fields [OF fo]
    from D C F r have u: "ifunset r2' = Nullptr" by simp
    note U = parseProp_ifunset_declared [OF u, of ctx rules3]
      parseProp_ifunset_fields [of ctx r2' rules3]
    note N = parseProp_nilable_declared [of r3] parseProp_nilable_fields [of r3]
    have rules: "rules1 = rulesAfterDefault ctx rules"
      "rules2 = rulesAfterComputedBy ctx rules1" "rules3 = rulesAfterForeign ctx rules2"
      using D C F by simp_all
    have 1: "ifunset info = declaredIfunset ctx args"
      using i r3 U N rules r False by (simp add: declaredIfunset_def)
    have 2: "isImmutable info \<longleftrightarrow> declaredImmutable ctx f args"
      using i r3 U N F C D r False by (simp add: declaredImmutable_def)
    have name: "computedByMethodName info = computedByMethodName r2"
      "computedByMethodNameLoc info = computedByMethodNameLoc r2"
      using i r3 U N F by simp_all
    have 3: "case declaredComputedBy ctx args of
            None \<Rightarrow> \<not> NameRef_exists (computedByMethodName info)
          | Some (mLoc, m) \<Rightarrow>
              NameRef_exists (computedByMethodName info)
              \<and> computedByMethodName info = m \<and> computedByMethodNameLoc info = mLoc"
      using C rules r False unfolding name
      by (auto simp add: declaredComputedBy_def Let_def NameRef_exists_def
            split: option.splits if_splits)
    from 1 2 3 show ?thesis by blast
  qed
qed

subsection \<open>The getter of a declaration\<close>

lemma processProp_getter_nodes:
  "\<exists>rest. processProp ctx ret forTStruct =
     MK_Sig (loc ret) (MK_Hash0 (loc ret)) (dupType ctx (dupType ctx (type ret)))
     # ASTUtil_mkGet (loc ret) (name ret)
         (if NameRef_exists (computedByMethodName ret) then
            MK_InsSeq1 (loc ret)
              (MK_AssertType (computedByMethodNameLoc ret)
                 (MK_Send1 (computedByMethodNameLoc ret)
                    (MK_Send0 (computedByMethodNameLoc ret) (MK_Self (loc ret)) Names_class)
                    (computedByMethodName ret)
                    (MK_Unsafe (computedByMethodNameLoc ret)
                       (MK_Nil (computedByMethodNameLoc ret))))
                 (dupType ctx (dupType ctx (type ret))))
              (MK_RaiseUnimplemented (loc ret))
          else if ifunset ret = Nullptr \<and> forTStruct then
            MK_Instance (nameLoc ret) (addAt (name ret))
          else MK_RaiseUnimplemented (loc ret))
     # rest"
  by (simp add: processProp_def processProp_getter_def Let_def)

lemma parseProp_loc:
  assumes "parseProp ctx l f args = Inr (Some info, errs)"
  shows "loc info = l"
proof -
  from parseProp_Some [OF assms] obtain r rules r3 where
    c: "parseProp_classify ctx l f args = Inr (Some (r, rules))"
    and o: "parseProp_options ctx r rules = Inr (r3, errs)"
    and i: "info = parseProp_nilable r3"
    by blast
  from parseProp_classify_Some [OF c] parseProp_options_fields [OF o]
    parseProp_nilable_fields [of r3] i
  show ?thesis by simp
qed

lemma replacement_Send:
  assumes "parseProp ctx l f args = Inr (Some info, es)"
  shows "replacement ctx ts (Send l r f args) = Some (processProp ctx info ts)"
  using assms by (simp add: replacement_def run_stat_def Let_def processProp_not_empty)

text \<open>Claim C4. Let \<^verbatim>\<open>parseProp\<close> recognise a declaration of a class. Its replacement starts
  with the sig and the getter, and the body of the getter is chosen in this order. When
  the declaration names a computed-by method (a truthy \<^verbatim>\<open>computed_by\<close> with a symbol
  literal), the body asserts that the call of that method on \<^verbatim>\<open>self.class\<close> with
  \<^verbatim>\<open>T.unsafe(nil)\<close> has the duplicated type of the property, then raises unimplemented.
  Otherwise, when the declaration has no \<^verbatim>\<open>ifunset\<close> value and the class has \<^verbatim>\<open>T::Struct\<close>
  among its ancestors, the body reads the instance variable. Otherwise it raises
  unimplemented. When \<^verbatim>\<open>run\<close> rewrites the class, this getter is a statement of the new
  body.\<close>

theorem getter_body_of_declaration:
  assumes "parseProp ctx sendLoc f args = Inr (Some info, es)"
  shows "(\<exists>rest.
            replacement ctx (list_ex isTStruct (ancestors klass)) (Send sendLoc recv f args) =
              Some (MK_Sig sendLoc (MK_Hash0 sendLoc) (dupType ctx (dupType ctx (type info)))
                    # ASTUtil_mkGet sendLoc (name info)
                        (case declaredComputedBy ctx args of
                           Some (mLoc, m) \<Rightarrow>
                             MK_InsSeq1 sendLoc
                               (MK_AssertType mLoc
                                  (MK_Send1 mLoc (MK_Send0 mLoc (MK_Self sendLoc) Names_class) m
                                     (MK_Unsafe mLoc (MK_Nil mLoc)))
                                  (dupType ctx (dupType ctx (type info))))
                               (MK_RaiseUnimplemented sendLoc)
                         | None \<Rightarrow>
                             if declaredIfunset ctx args = Nullptr
                                \<and> list_ex isTStruct (ancestors klass)
                             then MK_Instance (nameLoc info) (addAt (name info))
                             else MK_RaiseUnimplemented sendLoc)
                    # rest))
       \<and> (\<not> runningUnderAutogen ctx \<and> run ctx klass = Inr (klass', errs)
           \<and> Send sendLoc recv f args \<in> set (rhs klass) \<longrightarrow>
           ASTUtil_mkGet sendLoc (name info)
             (case declaredComputedBy ctx args of
                Some (mLoc, m) \<Rightarrow>
                  MK_InsSeq1 sendLoc
                    (MK_AssertType mLoc
                       (MK_Send1 mLoc (MK_Send0 mLoc (MK_Self sendLoc) Names_class) m
                          (MK_Unsafe mLoc (MK_Nil mLoc)))
                       (dupType ctx (dupType ctx (type info))))
                    (MK_RaiseUnimplemented sendLoc)
              | None \<Rightarrow>
                  if declaredIfunset ctx args = Nullptr \<and> list_ex isTStruct (ancestors klass)
                  then MK_Instance (nameLoc info) (addAt (name info))
                  else MK_RaiseUnimplemented sendLoc)
             \<in> set (rhs klass'))"
proof -
  let ?ts = "list_ex isTStruct (ancestors klass)"
  let ?stat = "Send sendLoc recv f args"
  let ?body = "case declaredComputedBy ctx args of
                Some (mLoc, m) \<Rightarrow>
                  MK_InsSeq1 sendLoc
                    (MK_AssertType mLoc
                       (MK_Send1 mLoc (MK_Send0 mLoc (MK_Self sendLoc) Names_class) m
                          (MK_Unsafe mLoc (MK_Nil mLoc)))
                       (dupType ctx (dupType ctx (type info))))
                    (MK_RaiseUnimplemented sendLoc)
              | None \<Rightarrow>
                  if declaredIfunset ctx args = Nullptr \<and> ?ts
                  then MK_Instance (nameLoc info) (addAt (name info))
                  else MK_RaiseUnimplemented sendLoc"
  let ?sig = "MK_Sig sendLoc (MK_Hash0 sendLoc) (dupType ctx (dupType ctx (type info)))"
  have rep: "replacement ctx ?ts ?stat = Some (processProp ctx info ?ts)"
    by (rule replacement_Send [OF assms])
  have l: "loc info = sendLoc"
    by (rule parseProp_loc [OF assms])
  from processProp_getter_nodes [of ctx info ?ts] obtain rest where
    nodes: "processProp ctx info ?ts =
       ?sig # ASTUtil_mkGet sendLoc (name info)
         (if NameRef_exists (computedByMethodName info) then
            MK_InsSeq1 sendLoc
              (MK_AssertType (computedByMethodNameLoc info)
                 (MK_Send1 (computedByMethodNameLoc info)
                    (MK_Send0 (computedByMethodNameLoc info) (MK_Self sendLoc) Names_class)
                    (computedByMethodName info)
                    (MK_Unsafe (computedByMethodNameLoc info)
                       (MK_Nil (computedByMethodNameLoc info))))
                 (dupType ctx (dupType ctx (type info))))
              (MK_RaiseUnimplemented sendLoc)
          else if ifunset info = Nullptr \<and> ?ts then
            MK_Instance (nameLoc info) (addAt (name info))
          else MK_RaiseUnimplemented sendLoc)
       # rest"
    unfolding l by blast
  from parseProp_declared [OF assms]
  have body: "(if NameRef_exists (computedByMethodName info) then
            MK_InsSeq1 sendLoc
              (MK_AssertType (computedByMethodNameLoc info)
                 (MK_Send1 (computedByMethodNameLoc info)
                    (MK_Send0 (computedByMethodNameLoc info) (MK_Self sendLoc) Names_class)
                    (computedByMethodName info)
                    (MK_Unsafe (computedByMethodNameLoc info)
                       (MK_Nil (computedByMethodNameLoc info))))
                 (dupType ctx (dupType ctx (type info))))
              (MK_RaiseUnimplemented sendLoc)
          else if ifunset info = Nullptr \<and> ?ts then
            MK_Instance (nameLoc info) (addAt (name info))
          else MK_RaiseUnimplemented sendLoc) = ?body"
    by (cases "declaredComputedBy ctx args") auto
  from nodes body have nodes': "processProp ctx info ?ts =
       ?sig # ASTUtil_mkGet sendLoc (name info) ?body # rest"
    by simp
  with rep have 1: "\<exists>rest. replacement ctx ?ts ?stat =
       Some (?sig # ASTUtil_mkGet sendLoc (name info) ?body # rest)"
    by simp
  have 2: "\<not> runningUnderAutogen ctx \<and> run ctx klass = Inr (klass', errs)
           \<and> ?stat \<in> set (rhs klass) \<longrightarrow>
           ASTUtil_mkGet sendLoc (name info) ?body \<in> set (rhs klass')"
  proof
    assume a: "\<not> runningUnderAutogen ctx \<and> run ctx klass = Inr (klass', errs)
           \<and> ?stat \<in> set (rhs klass)"
    from a run_emits_replacement [OF _ _ _ rep, of klass' errs]
    have "set (processProp ctx info ?ts) \<subseteq> set (rhs klass')"
      by blast
    with nodes' show "ASTUtil_mkGet sendLoc (name info) ?body \<in> set (rhs klass')"
      by simp
  qed
  from 1 2 show ?thesis by blast
qed

theorem getter_body_of_declaration_witness:
  "parseProp example_ctx (at 10 60) Names_const
     [symLit (at 16 20) ''foo'', cnst (at 22 28) ''String'',
      Hash (at 30 60) [symLit (at 30 41) ''computed_by''] [symLit (at 43 55) ''compute_foo'']]
     = Inr (Some ((example_info (at 10 60) ''foo'' (at 17 20) (cnst (at 22 28) ''String'') Nullptr)
                    \<lparr>isImmutable := True, computedByMethodName := UTF8 ''compute_foo'',
                     computedByMethodNameLoc := at 43 55\<rparr>), [])
   \<and> (\<exists>rest.
         replacement example_ctx True
           (decl (at 10 60) Names_const
              [symLit (at 16 20) ''foo'', cnst (at 22 28) ''String'',
               Hash (at 30 60) [symLit (at 30 41) ''computed_by'']
                 [symLit (at 43 55) ''compute_foo'']])
         = Some (MK_Sig (at 10 60) (MK_Hash0 (at 10 60)) (cnst (at 22 28) ''String'')
                 # ASTUtil_mkGet (at 10 60) (UTF8 ''foo'')
                     (MK_InsSeq1 (at 10 60)
                        (MK_AssertType (at 43 55)
                           (MK_Send1 (at 43 55)
                              (MK_Send0 (at 43 55) (MK_Self (at 10 60)) Names_class)
                              (UTF8 ''compute_foo'')
                              (MK_Unsafe (at 43 55) (MK_Nil (at 43 55))))
                           (cnst (at 22 28) ''String''))
                        (MK_RaiseUnimplemented (at 10 60)))
                 # rest))
   \<and> parseProp example_ctx (at 10 60) Names_prop
       [symLit (at 16 20) ''foo'', cnst (at 22 28) ''String'',
        Hash (at 30 60) [symLit (at 30 37) ''ifunset''] [Literal (at 39 40) (IntegerValue 0)]]
     = Inr (Some ((example_info (at 10 60) ''foo'' (at 17 20) (cnst (at 22 28) ''String'') Nullptr)
                    \<lparr>ifunset := Literal (at 39 40) (IntegerValue 0)\<rparr>), [])
   \<and> (\<exists>rest.
         replacement example_ctx True
           (decl (at 10 60) Names_prop
              [symLit (at 16 20) ''foo'', cnst (at 22 28) ''String'',
               Hash (at 30 60) [symLit (at 30 37) ''ifunset'']
                 [Literal (at 39 40) (IntegerValue 0)]])
         = Some (MK_Sig (at 10 60) (MK_Hash0 (at 10 60)) (cnst (at 22 28) ''String'')
                 # ASTUtil_mkGet (at 10 60) (UTF8 ''foo'') (MK_RaiseUnimplemented (at 10 60))
                 # rest))
   \<and> parseProp example_ctx (at 10 30) Names_prop
       [symLit (at 16 20) ''foo'', cnst (at 22 28) ''String'']
     = Inr (Some (example_info (at 10 30) ''foo'' (at 17 20) (cnst (at 22 28) ''String'') Nullptr),
            [])
   \<and> (\<exists>rest.
         replacement example_ctx True
           (decl (at 10 30) Names_prop [symLit (at 16 20) ''foo'', cnst (at 22 28) ''String''])
         = Some (MK_Sig (at 10 30) (MK_Hash0 (at 10 30)) (cnst (at 22 28) ''String'')
                 # ASTUtil_mkGet (at 10 30) (UTF8 ''foo'')
                     (MK_Instance (at 17 20) (UTF8 ''@foo''))
                 # rest))"
proof -
  let ?K = "example_struct []"
  let ?ty = "cnst (at 22 28) ''String''"
  let ?A1 = "[symLit (at 16 20) ''foo'', ?ty,
      Hash (at 30 60) [symLit (at 30 41) ''computed_by''] [symLit (at 43 55) ''compute_foo'']]"
  let ?I1 = "(example_info (at 10 60) ''foo'' (at 17 20) ?ty Nullptr)
                    \<lparr>isImmutable := True, computedByMethodName := UTF8 ''compute_foo'',
                     computedByMethodNameLoc := at 43 55\<rparr>"
  let ?A2 = "[symLit (at 16 20) ''foo'', ?ty,
        Hash (at 30 60) [symLit (at 30 37) ''ifunset''] [Literal (at 39 40) (IntegerValue 0)]]"
  let ?I2 = "(example_info (at 10 60) ''foo'' (at 17 20) ?ty Nullptr)
                    \<lparr>ifunset := Literal (at 39 40) (IntegerValue 0)\<rparr>"
  let ?A3 = "[symLit (at 16 20) ''foo'', ?ty]"
  let ?I3 = "example_info (at 10 30) ''foo'' (at 17 20) ?ty Nullptr"
  have ts: "list_ex isTStruct (ancestors ?K) = True"
    by code_simp
  have dup: "dupType example_ctx (dupType example_ctx ?ty) = ?ty"
    by code_simp
  have fields: "type ?I1 = ?ty" "type ?I2 = ?ty" "type ?I3 = ?ty"
    "name ?I1 = UTF8 ''foo''" "name ?I2 = UTF8 ''foo''" "name ?I3 = UTF8 ''foo''"
    "nameLoc ?I3 = at 17 20"
    by (simp_all add: example_info_def)
  have p1: "parseProp example_ctx (at 10 60) Names_const ?A1 = Inr (Some ?I1, [])"
    by code_simp
  have c1: "declaredComputedBy example_ctx ?A1 = Some (at 43 55, UTF8 ''compute_foo'')"
    by code_simp
  have p2: "parseProp example_ctx (at 10 60) Names_prop ?A2 = Inr (Some ?I2, [])"
    by code_simp
  have c2: "declaredComputedBy example_ctx ?A2 = None"
    by code_simp
  have u2: "declaredIfunset example_ctx ?A2 = Literal (at 39 40) (IntegerValue 0)"
    by code_simp
  have p3: "parseProp example_ctx (at 10 30) Names_prop ?A3 = Inr (Some ?I3, [])"
    by code_simp
  have c3: "declaredComputedBy example_ctx ?A3 = None"
    by code_simp
  have u3: "declaredIfunset example_ctx ?A3 = Nullptr"
    by code_simp
  from getter_body_of_declaration [OF p1, of ?K "OtherNode (at 10 60) 1 []"]
  have r1: "\<exists>rest.
         replacement example_ctx True (decl (at 10 60) Names_const ?A1)
         = Some (MK_Sig (at 10 60) (MK_Hash0 (at 10 60)) ?ty
                 # ASTUtil_mkGet (at 10 60) (UTF8 ''foo'')
                     (MK_InsSeq1 (at 10 60)
                        (MK_AssertType (at 43 55)
                           (MK_Send1 (at 43 55)
                              (MK_Send0 (at 43 55) (MK_Self (at 10 60)) Names_class)
                              (UTF8 ''compute_foo'')
                              (MK_Unsafe (at 43 55) (MK_Nil (at 43 55))))
                           ?ty)
                        (MK_RaiseUnimplemented (at 10 60)))
                 # rest)"
    unfolding ts c1 fields dup decl_def by simp
  from getter_body_of_declaration [OF p2, of ?K "OtherNode (at 10 60) 1 []"]
  have r2: "\<exists>rest.
         replacement example_ctx True (decl (at 10 60) Names_prop ?A2)
         = Some (MK_Sig (at 10 60) (MK_Hash0 (at 10 60)) ?ty
                 # ASTUtil_mkGet (at 10 60) (UTF8 ''foo'') (MK_RaiseUnimplemented (at 10 60))
                 # rest)"
    unfolding ts c2 u2 fields dup decl_def by simp
  from getter_body_of_declaration [OF p3, of ?K "OtherNode (at 10 30) 1 []"]
  have r3: "\<exists>rest.
         replacement example_ctx True (decl (at 10 30) Names_prop ?A3)
         = Some (MK_Sig (at 10 30) (MK_Hash0 (at 10 30)) ?ty
                 # ASTUtil_mkGet (at 10 30) (UTF8 ''foo'')
                     (MK_Instance (at 17 20) (UTF8 ''@foo''))
                 # rest)"
    unfolding ts c3 u3 fields dup decl_def
    by (simp add: addAt_def enterNameUTF8_def)
  from p1 r1 p2 r2 p3 r3 show ?thesis by blast
qed

subsection \<open>The initializer of a struct\<close>

text \<open>Claim C2. Let \<^verbatim>\<open>run\<close> rewrite a class that has \<^verbatim>\<open>T::Struct\<close> among its ancestors. The
  new body starts with the sig and the method \<^verbatim>\<open>initialize\<close>, made of the records of the
  declarations of the body in their order. The keys and types of the sig and the
  arguments of the method list the records without default in that order, then the
  records with a default in that order; the body of the method assigns the instance
  variable of every record in the order of the declarations and ends with \<^verbatim>\<open>ZSuper\<close>, the
  call of the superclass constructor without explicit arguments.\<close>

theorem struct_initializer_parameter_order:
  assumes "\<not> runningUnderAutogen ctx" and "list_ex isTStruct (ancestors klass)"
    and "run ctx klass = Inr (klass', errs)"
  shows "(\<exists>rest. rhs klass' =
     MK_SigVoid (klassLoc klass)
       (MK_Hash (klassLoc klass)
          (map sigKey (requiredProps (recordsOf ctx (rhs klass)))
           @ map sigKey (optionalProps (recordsOf ctx (rhs klass))))
          (map type (requiredProps (recordsOf ctx (rhs klass)))
           @ map type (optionalProps (recordsOf ctx (rhs klass)))))
     # MK_SyntheticMethod (klassLoc klass) (klassLoc klass) Names_initialize
         (map requiredArg (requiredProps (recordsOf ctx (rhs klass)))
          @ map optionalArg (optionalProps (recordsOf ctx (rhs klass))))
         (MK_InsSeq (klassLoc klass) (map fieldAssign (recordsOf ctx (rhs klass)))
            (MK_ZSuper (klassLoc klass)))
     # rest)
   \<and> requiredProps (recordsOf ctx (rhs klass))
       = filter (\<lambda>p. default' p = Nullptr) (recordsOf ctx (rhs klass))
   \<and> optionalProps (recordsOf ctx (rhs klass))
       = filter (\<lambda>p. default' p \<noteq> Nullptr) (recordsOf ctx (rhs klass))
   \<and> recordsOf ctx (rhs klass)
       = concat (map (\<lambda>stat. case recordOf ctx stat of None \<Rightarrow> [] | Some p \<Rightarrow> [p])
                   (rhs klass))"
  using run_struct_initializer [OF assms]
  by (simp add: requiredProps_def optionalProps_def recordsOf_def)

theorem struct_initializer_parameter_order_witness:
  "\<not> runningUnderAutogen example_ctx
   \<and> list_ex isTStruct
       (ancestors
          (example_struct
             [decl (at 10 20) Names_prop [symLit (at 15 17) ''a'', cnst (at 19 20) ''A''],
              decl (at 30 50) Names_prop
                [symLit (at 35 37) ''b'', cnst (at 39 40) ''B'',
                 Hash (at 42 50) [symLit (at 42 49) ''default'']
                   [Literal (at 49 50) (IntegerValue 1)]],
              decl (at 60 70) Names_prop [symLit (at 65 67) ''c'', cnst (at 69 70) ''C'']]))
   \<and> (\<exists>klass' rest.
         run example_ctx
           (example_struct
              [decl (at 10 20) Names_prop [symLit (at 15 17) ''a'', cnst (at 19 20) ''A''],
               decl (at 30 50) Names_prop
                 [symLit (at 35 37) ''b'', cnst (at 39 40) ''B'',
                  Hash (at 42 50) [symLit (at 42 49) ''default'']
                    [Literal (at 49 50) (IntegerValue 1)]],
               decl (at 60 70) Names_prop [symLit (at 65 67) ''c'', cnst (at 69 70) ''C'']])
           = Inr (klass', [])
         \<and> rhs klass' =
             MK_SigVoid (at 0 200)
               (MK_Hash (at 0 200)
                  [MK_Symbol (at 10 20) (UTF8 ''a''), MK_Symbol (at 60 70) (UTF8 ''c''),
                   MK_Symbol (at 30 50) (UTF8 ''b'')]
                  [cnst (at 19 20) ''A'', cnst (at 69 70) ''C'', cnst (at 39 40) ''B''])
             # MK_SyntheticMethod (at 0 200) (at 0 200) Names_initialize
                 [MK_KeywordArg (at 10 20) (MK_Local (at 10 20) (UTF8 ''a'')),
                  MK_KeywordArg (at 60 70) (MK_Local (at 60 70) (UTF8 ''c'')),
                  MK_OptionalArg (at 30 50)
                    (MK_KeywordArg (at 30 50) (MK_Local (at 30 50) (UTF8 ''b'')))
                    (Literal (at 49 50) (IntegerValue 1))]
                 (MK_InsSeq (at 0 200)
                    [MK_Assign (at 10 20) (MK_Instance (at 16 17) (UTF8 ''@a''))
                       (MK_Local (at 16 17) (UTF8 ''a'')),
                     MK_Assign (at 30 50) (MK_Instance (at 36 37) (UTF8 ''@b''))
                       (MK_Local (at 36 37) (UTF8 ''b'')),
                     MK_Assign (at 60 70) (MK_Instance (at 66 67) (UTF8 ''@c''))
                       (MK_Local (at 66 67) (UTF8 ''c''))]
                    (MK_ZSuper (at 0 200)))
             # rest)"
proof -
  let ?stats = "[decl (at 10 20) Names_prop [symLit (at 15 17) ''a'', cnst (at 19 20) ''A''],
              decl (at 30 50) Names_prop
                [symLit (at 35 37) ''b'', cnst (at 39 40) ''B'',
                 Hash (at 42 50) [symLit (at 42 49) ''default'']
                   [Literal (at 49 50) (IntegerValue 1)]],
              decl (at 60 70) Names_prop [symLit (at 65 67) ''c'', cnst (at 69 70) ''C'']]"
  let ?K = "example_struct ?stats"
  let ?a = "example_info (at 10 20) ''a'' (at 16 17) (cnst (at 19 20) ''A'') Nullptr"
  let ?b = "example_info (at 30 50) ''b'' (at 36 37) (cnst (at 39 40) ''B'')
              (Literal (at 49 50) (IntegerValue 1))"
  let ?c = "example_info (at 60 70) ''c'' (at 66 67) (cnst (at 69 70) ''C'') Nullptr"
  have h1: "\<not> runningUnderAutogen example_ctx"
    by (simp add: example_ctx_def)
  have h2: "list_ex isTStruct (ancestors ?K)"
    by code_simp
  have "case run example_ctx ?K of Inr (k, es) \<Rightarrow> es = [] | Inl e \<Rightarrow> False"
    by code_simp
  then obtain k where h3: "run example_ctx ?K = Inr (k, [])"
    by (cases "run example_ctx ?K") auto
  have K: "klassLoc ?K = at 0 200" "rhs ?K = ?stats"
    by (simp_all add: example_struct_def)
  have ps: "recordsOf example_ctx ?stats = [?a, ?b, ?c]"
    by code_simp
  have fields:
    "default' ?a = Nullptr" "default' ?b = Literal (at 49 50) (IntegerValue 1)"
    "default' ?c = Nullptr"
    "loc ?a = at 10 20" "loc ?b = at 30 50" "loc ?c = at 60 70"
    "nameLoc ?a = at 16 17" "nameLoc ?b = at 36 37" "nameLoc ?c = at 66 67"
    "name ?a = UTF8 ''a''" "name ?b = UTF8 ''b''" "name ?c = UTF8 ''c''"
    "type ?a = cnst (at 19 20) ''A''" "type ?b = cnst (at 39 40) ''B''"
    "type ?c = cnst (at 69 70) ''C''"
    by (simp_all add: example_info_def)
  have parts: "requiredProps [?a, ?b, ?c] = [?a, ?c]" "optionalProps [?a, ?b, ?c] = [?b]"
    by (simp_all add: requiredProps_def optionalProps_def fields)
  from struct_initializer_parameter_order [OF h1 h2 h3]
  have "\<exists>rest. rhs k =
     MK_SigVoid (klassLoc ?K)
       (MK_Hash (klassLoc ?K)
          (map sigKey (requiredProps (recordsOf example_ctx (rhs ?K)))
           @ map sigKey (optionalProps (recordsOf example_ctx (rhs ?K))))
          (map type (requiredProps (recordsOf example_ctx (rhs ?K)))
           @ map type (optionalProps (recordsOf example_ctx (rhs ?K)))))
     # MK_SyntheticMethod (klassLoc ?K) (klassLoc ?K) Names_initialize
         (map requiredArg (requiredProps (recordsOf example_ctx (rhs ?K)))
          @ map optionalArg (optionalProps (recordsOf example_ctx (rhs ?K))))
         (MK_InsSeq (klassLoc ?K) (map fieldAssign (recordsOf example_ctx (rhs ?K)))
            (MK_ZSuper (klassLoc ?K)))
     # rest"
    by blast
  then have "\<exists>rest. rhs k =
             MK_SigVoid (at 0 200)
               (MK_Hash (at 0 200)
                  [MK_Symbol (at 10 20) (UTF8 ''a''), MK_Symbol (at 60 70) (UTF8 ''c''),
                   MK_Symbol (at 30 50) (UTF8 ''b'')]
                  [cnst (at 19 20) ''A'', cnst (at 69 70) ''C'', cnst (at 39 40) ''B''])
             # MK_SyntheticMethod (at 0 200) (at 0 200) Names_initialize
                 [MK_KeywordArg (at 10 20) (MK_Local (at 10 20) (UTF8 ''a'')),
                  MK_KeywordArg (at 60 70) (MK_Local (at 60 70) (UTF8 ''c'')),
                  MK_OptionalArg (at 30 50)
                    (MK_KeywordArg (at 30 50) (MK_Local (at 30 50) (UTF8 ''b'')))
                    (Literal (at 49 50) (IntegerValue 1))]
                 (MK_InsSeq (at 0 200)
                    [MK_Assign (at 10 20) (MK_Instance (at 16 17) (UTF8 ''@a''))
                       (MK_Local (at 16 17) (UTF8 ''a'')),
                     MK_Assign (at 30 50) (MK_Instance (at 36 37) (UTF8 ''@b''))
                       (MK_Local (at 36 37) (UTF8 ''b'')),
                     MK_Assign (at 60 70) (MK_Instance (at 66 67) (UTF8 ''@c''))
                       (MK_Local (at 66 67) (UTF8 ''c''))]
                    (MK_ZSuper (at 0 200)))
             # rest"
    unfolding K ps parts
    by (simp add: fields sigKey_def requiredArg_def optionalArg_def fieldAssign_def
          addAt_def enterNameUTF8_def)
  with h1 h2 h3 show ?thesis by blast
qed

lemma parseProp_nilable_default:
  assumes "parseProp ctx sendLoc f args = Inr (Some info, errs)"
    and "isTNilable (type info)"
    and "parseProp_rules args = Nullptr
         \<or> (\<not> hasTruthyHashValue ctx (parseProp_rules args) Names_factory
            \<and> \<not> hasHashValue ctx (parseProp_rules args) Names_default)"
  shows "default' info = MK_Nil sendLoc"
proof -
  from parseProp_Some [OF assms(1)] obtain r rules r3 where
    c: "parseProp_classify ctx sendLoc f args = Inr (Some (r, rules))"
    and o: "parseProp_options ctx r rules = Inr (r3, errs)"
    and i: "info = parseProp_nilable r3"
    by blast
  from parseProp_classify_Some [OF c]
  have r: "loc r = sendLoc" "default' r = Nullptr" "rules = parseProp_rules args"
    by simp_all
  have "default' r3 = Nullptr"
  proof (cases "rules = Nullptr")
    case True
    with parseProp_options_default [OF o] r show ?thesis by simp
  next
    case False
    with assms(3) r
    have "\<not> hasTruthyHashValue ctx rules Names_factory" "\<not> hasHashValue ctx rules Names_default"
      by simp_all
    from parseProp_default_none [OF this, of r] parseProp_options_default [OF o] False r
    show ?thesis by simp
  qed
  moreover from parseProp_options_fields [OF o] r have r3: "loc r3 = sendLoc" by simp
  moreover from assms(2) i parseProp_nilable_fields [of r3] have "isTNilable (type r3)"
    by simp
  ultimately show ?thesis
    using i by (simp add: parseProp_nilable_def)
qed

text \<open>Claim C5. A recognised declaration whose rules hash has no truthy \<^verbatim>\<open>factory\<close> and no
  \<^verbatim>\<open>default\<close> (or that has no rules hash) and whose type is \<^verbatim>\<open>T.nilable(...)\<close> gets the
  default \<^verbatim>\<open>nil\<close>. When \<^verbatim>\<open>run\<close> rewrites a class with \<^verbatim>\<open>T::Struct\<close> among its ancestors
  that has the declaration in its body, the record of the declaration is among the
  records of the body, between those of the statements before it and those of the
  statements after it, and it is no required argument of the method \<^verbatim>\<open>initialize\<close> at the
  head of the new body: it stands among the optional arguments, after every required
  one, with the default \<^verbatim>\<open>nil\<close>.\<close>

theorem nilable_without_default_is_optional:
  assumes "parseProp ctx sendLoc f args = Inr (Some info, es)"
    and "isTNilable (type info)"
    and "parseProp_rules args = Nullptr
         \<or> (\<not> hasTruthyHashValue ctx (parseProp_rules args) Names_factory
            \<and> \<not> hasHashValue ctx (parseProp_rules args) Names_default)"
    and "\<not> runningUnderAutogen ctx" and "list_ex isTStruct (ancestors klass)"
    and "rhs klass = before @ Send sendLoc recv f args # after"
    and "run ctx klass = Inr (klass', errs)"
  shows "default' info = MK_Nil sendLoc
       \<and> recordsOf ctx (rhs klass) = recordsOf ctx before @ info # recordsOf ctx after
       \<and> requiredProps (recordsOf ctx (rhs klass))
           = requiredProps (recordsOf ctx before) @ requiredProps (recordsOf ctx after)
       \<and> optionalProps (recordsOf ctx (rhs klass))
           = optionalProps (recordsOf ctx before) @ info # optionalProps (recordsOf ctx after)
       \<and> (\<exists>sig body rest.
            rhs klass' =
              sig
              # MK_SyntheticMethod (klassLoc klass) (klassLoc klass) Names_initialize
                  (map requiredArg
                     (requiredProps (recordsOf ctx before) @ requiredProps (recordsOf ctx after))
                   @ map optionalArg (optionalProps (recordsOf ctx before))
                   @ MK_OptionalArg sendLoc
                       (MK_KeywordArg sendLoc (MK_Local sendLoc (name info)))
                       (MK_Nil sendLoc)
                     # map optionalArg (optionalProps (recordsOf ctx after)))
                  body
              # rest)"
proof -
  have d: "default' info = MK_Nil sendLoc"
    by (rule parseProp_nilable_default [OF assms(1,2,3)])
  have l: "loc info = sendLoc"
    by (rule parseProp_loc [OF assms(1)])
  from recordOf_Send [OF assms(1), of recv] assms(6)
  have recs: "recordsOf ctx (rhs klass) = recordsOf ctx before @ info # recordsOf ctx after"
    by (simp add: recordsOf_append recordsOf_Cons)
  from d have nn: "default' info \<noteq> Nullptr" by simp
  have req: "requiredProps (recordsOf ctx (rhs klass))
           = requiredProps (recordsOf ctx before) @ requiredProps (recordsOf ctx after)"
    unfolding recs using nn by (simp add: requiredProps_def)
  have opt: "optionalProps (recordsOf ctx (rhs klass))
           = optionalProps (recordsOf ctx before) @ info # optionalProps (recordsOf ctx after)"
    unfolding recs using nn by (simp add: optionalProps_def)
  have arg: "optionalArg info =
      MK_OptionalArg sendLoc (MK_KeywordArg sendLoc (MK_Local sendLoc (name info)))
        (MK_Nil sendLoc)"
    by (simp add: optionalArg_def d l)
  from run_struct_initializer [OF assms(4,5,7)]
  have "\<exists>sig body rest.
            rhs klass' =
              sig
              # MK_SyntheticMethod (klassLoc klass) (klassLoc klass) Names_initialize
                  (map requiredArg
                     (requiredProps (recordsOf ctx before) @ requiredProps (recordsOf ctx after))
                   @ map optionalArg (optionalProps (recordsOf ctx before))
                   @ optionalArg info
                     # map optionalArg (optionalProps (recordsOf ctx after)))
                  body
              # rest"
    unfolding req opt by auto
  with d recs req opt show ?thesis
    unfolding arg by blast
qed

theorem nilable_without_default_is_optional_witness:
  "parseProp example_ctx (at 30 60) Names_prop
     [symLit (at 35 39) ''foo'',
      Send (at 41 58) (cnst (at 41 42) ''T'') Names_nilable [cnst (at 51 57) ''String'']]
     = Inr (Some (example_info (at 30 60) ''foo'' (at 36 39)
                    (Send (at 41 58) (cnst (at 41 42) ''T'') Names_nilable
                       [cnst (at 51 57) ''String''])
                    (MK_Nil (at 30 60))), [])
   \<and> isTNilable (Send (at 41 58) (cnst (at 41 42) ''T'') Names_nilable
                   [cnst (at 51 57) ''String''])
   \<and> parseProp_rules
        [symLit (at 35 39) ''foo'',
         Send (at 41 58) (cnst (at 41 42) ''T'') Names_nilable [cnst (at 51 57) ''String'']]
       = Nullptr
   \<and> \<not> runningUnderAutogen example_ctx
   \<and> (\<exists>klass' sig body rest.
         run example_ctx
           (example_struct
              [decl (at 10 20) Names_prop [symLit (at 15 17) ''a'', cnst (at 19 20) ''A''],
               decl (at 30 60) Names_prop
                 [symLit (at 35 39) ''foo'',
                  Send (at 41 58) (cnst (at 41 42) ''T'') Names_nilable
                    [cnst (at 51 57) ''String'']]])
           = Inr (klass', [])
         \<and> rhs klass' =
             sig
             # MK_SyntheticMethod (at 0 200) (at 0 200) Names_initialize
                 [MK_KeywordArg (at 10 20) (MK_Local (at 10 20) (UTF8 ''a'')),
                  MK_OptionalArg (at 30 60)
                    (MK_KeywordArg (at 30 60) (MK_Local (at 30 60) (UTF8 ''foo'')))
                    (MK_Nil (at 30 60))]
                 body
             # rest)"
proof -
  let ?ty = "Send (at 41 58) (cnst (at 41 42) ''T'') Names_nilable [cnst (at 51 57) ''String'']"
  let ?args = "[symLit (at 35 39) ''foo'', ?ty]"
  let ?I = "example_info (at 30 60) ''foo'' (at 36 39) ?ty (MK_Nil (at 30 60))"
  let ?A = "example_info (at 10 20) ''a'' (at 16 17) (cnst (at 19 20) ''A'') Nullptr"
  let ?before = "[decl (at 10 20) Names_prop [symLit (at 15 17) ''a'', cnst (at 19 20) ''A'']]"
  let ?K = "example_struct (?before @ [decl (at 30 60) Names_prop ?args])"
  have h1: "parseProp example_ctx (at 30 60) Names_prop ?args = Inr (Some ?I, [])"
    by code_simp
  have nil: "isTNilable ?ty"
    by code_simp
  then have h2: "isTNilable (type ?I)"
    by (simp add: example_info_def)
  have rules: "parseProp_rules ?args = Nullptr"
    by code_simp
  then have h3: "parseProp_rules ?args = Nullptr
         \<or> (\<not> hasTruthyHashValue example_ctx (parseProp_rules ?args) Names_factory
            \<and> \<not> hasHashValue example_ctx (parseProp_rules ?args) Names_default)"
    by simp
  have h4: "\<not> runningUnderAutogen example_ctx"
    by (simp add: example_ctx_def)
  have h5: "list_ex isTStruct (ancestors ?K)"
    by code_simp
  have h6: "rhs ?K = ?before @ Send (at 30 60) (OtherNode (at 30 60) 1 []) Names_prop ?args # []"
    by (simp add: example_struct_def decl_def)
  have "case run example_ctx ?K of Inr (k, es) \<Rightarrow> es = [] | Inl e \<Rightarrow> False"
    by code_simp
  then obtain k where h7: "run example_ctx ?K = Inr (k, [])"
    by (cases "run example_ctx ?K") auto
  have recs: "recordsOf example_ctx ?before = [?A]" "recordsOf example_ctx [] = []"
    by code_simp+
  have A: "requiredProps [?A] = [?A]" "optionalProps [?A] = []"
    "requiredProps [] = []" "optionalProps [] = []"
    by (simp_all add: requiredProps_def optionalProps_def example_info_def)
  have K: "klassLoc ?K = at 0 200"
    by (simp add: example_struct_def)
  have n: "name ?I = UTF8 ''foo''"
    by (simp add: example_info_def)
  from nilable_without_default_is_optional [OF h1 h2 h3 h4 h5 h6 h7]
  have "\<exists>sig body rest.
         rhs k =
             sig
             # MK_SyntheticMethod (at 0 200) (at 0 200) Names_initialize
                 [MK_KeywordArg (at 10 20) (MK_Local (at 10 20) (UTF8 ''a'')),
                  MK_OptionalArg (at 30 60)
                    (MK_KeywordArg (at 30 60) (MK_Local (at 30 60) (UTF8 ''foo'')))
                    (MK_Nil (at 30 60))]
                 body
             # rest"
    unfolding recs A K n
    by (simp add: requiredArg_def example_info_def)
  with h1 nil rules h4 h7 show ?thesis by auto
qed

end
